theory Spec2Isabelle
  imports Main "HOL-Library.Sublist"
begin

section \<open>The chess server of \<^verbatim>\<open>src/chessServer/index.js\<close>\<close>

text \<open>
  The server keeps two stores, the array \<^verbatim>\<open>ongoingGames\<close> and the object
  \<^verbatim>\<open>sessions\<close>, and registers fourteen event handlers on every connection. Each
  handler is a function from the state of the process, the id of the connection that sent
  the event and the decoded payload to the new state and the list of events it emits, in
  order.

  Modelling decisions:
  \<^item> A payload is taken as decoded, its fields being strings, as the handlers' comments
    give them (\<^verbatim>\<open>student: string, mentor: string, role: string\<close>); coordinates and
    pieces are kept as the text of their JSON value.
  \<^item> The chess library is a parameter: a record of the five operations the handlers call.
    \<^verbatim>\<open>move\<close> returns \<^verbatim>\<open>null\<close> for an illegal move, which is what the handler
    tests for, and \<^verbatim>\<open>undo\<close> when no move was made; the board is then as it was.
  \<^item> An exception that no \<^verbatim>\<open>try\<close> catches ends the handler: the result is
    \<open>Inl\<close> of the error. Every such exception of the handlers below is raised before
    the handler's first mutation or emit, except in \<^verbatim>\<open>endgame\<close> and in the branch of
    \<^verbatim>\<open>newgame\<close> for a game that exists. The \<^verbatim>\<open>try\<close> of \<^verbatim>\<open>createSession\<close>
    has nothing to catch once the payload is decoded; the one of \<^verbatim>\<open>joinSession\<close>
    catches the failure of \<^verbatim>\<open>session.boardState.fen()\<close>. Logging is left out.
  \<^item> \<^verbatim>\<open>sessions\<close> and the sessions are plain objects. A lookup \<^verbatim>\<open>sessions[sessionId]\<close>
    or \<^verbatim>\<open>session[role]\<close> finds the object's own properties and the properties every
    object inherits, and the computed key \<^verbatim>\<open>[role]\<close> writes over \<^verbatim>\<open>boardState\<close>
    and \<^verbatim>\<open>pastStates\<close> when the role has that name. Two outcomes are not modelled and
    are the error \<open>Unmodelled\<close>: writing a property into the prototype of all objects,
    after which nothing in the process is what this model says, and a lookup whose result
    depends on which properties the built-in functions of the runtime have.
  \<^item> The rooms of socket.io are part of the state: a connection is in the room of its own
    id, and \<^verbatim>\<open>socket.join(sessionId)\<close> puts it in the room of the session id.
  \<^item> The handlers that \<^verbatim>\<open>./managers/EventHandlers\<close> registers on the same
    connection are not part of this file; they cannot reach the two stores.
\<close>

subsection \<open>Data\<close>

datatype jsval = Undefined | Null | Str string

text \<open>A participant, \<^verbatim>\<open>{ username, id, color }\<close>. The id is the empty string while no
  connection is bound (\<^verbatim>\<open>var studentSocket = ""\<close>); the color is \<^verbatim>\<open>undefined\<close>
  when it was read from an empty \<^verbatim>\<open>colors\<close> array.\<close>

record slot =
  username :: string
  id' :: string
  color :: jsval

text \<open>The value of \<^verbatim>\<open>boardState\<close> is a board of the chess library, and the value of
  \<^verbatim>\<open>pastStates\<close> is an array, unless \<^verbatim>\<open>createSession\<close> was called with the role
  \<^verbatim>\<open>boardState\<close> or \<^verbatim>\<open>pastStates\<close>: then the participant is stored there.\<close>

datatype 'p board = Board 'p | NotBoard slot

datatype 'p past = Past "'p list" | NotPast slot

text \<open>A game of \<^verbatim>\<open>ongoingGames\<close> and a session of \<^verbatim>\<open>sessions\<close> are the same kind
  of object, and the handlers treat them alike. A slot that the object does not have is
  \<open>None\<close>. \<open>others\<close> holds the participants stored under any other role (the
  computed key \<^verbatim>\<open>[role]\<close>).\<close>

record 'p game =
  student :: "slot option"
  mentor :: "slot option"
  boardState :: "'p board"
  pastStates :: "'p past"
  others :: "(string \<times> slot) list"

text \<open>The chess library: \<^verbatim>\<open>new Chess()\<close>, \<^verbatim>\<open>new Chess(state)\<close> (\<open>None\<close> when the
  constructor throws), \<^verbatim>\<open>fen()\<close>, \<^verbatim>\<open>move({from, to})\<close> and \<^verbatim>\<open>undo()\<close>
  (\<open>None\<close> when they return \<^verbatim>\<open>null\<close>, the board unchanged).\<close>

record 'p engine =
  chess_new :: 'p
  chess_load :: "string \<Rightarrow> 'p option"
  chess_fen :: "'p \<Rightarrow> string"
  chess_move :: "'p \<Rightarrow> string \<Rightarrow> string \<Rightarrow> 'p option"
  chess_undo :: "'p \<Rightarrow> 'p option"

text \<open>The process: the two stores, the sessions in the order in which
  \<^verbatim>\<open>for (const sessionId in sessions)\<close> visits them; the ids of the live connections
  (\<^verbatim>\<open>io.sockets.sockets\<close>); the rooms that connections joined, as pairs of the room and
  the connection; and the participants that \<^verbatim>\<open>joinSession\<close> wrote into a built-in
  function, by the name under which \<^verbatim>\<open>sessions\<close> inherits the function and the role.\<close>

record 'p world =
  ongoingGames :: "'p game list"
  sessions :: "(string \<times> 'p game) list"
  connected :: "string list"
  rooms :: "(string \<times> string) list"
  builtin_slots :: "((string \<times> string) \<times> slot) list"

datatype target = Everyone | Room string | Socket string

datatype payload =
    NoPayload
  | Text string
  | BoardStateMsg string jsval
  | FromTo string string
  | To string
  | EmptyObj
  | XY string string
  | Piece string

datatype emit = Emit target string payload

datatype error = TypeError | EngineError | Unmodelled

datatype ref = InGames nat | InSessions nat

type_synonym 'p result = "error + ('p world \<times> emit list)"

subsection \<open>Emitting\<close>

text \<open>\<^verbatim>\<open>x?.id\<close>\<close>

definition slot_id :: "slot option \<Rightarrow> string option" where
  "slot_id s = map_option id' s"

text \<open>\<^verbatim>\<open>safeEmit(socketId, event, payload)\<close>: nothing when the id is \<^verbatim>\<open>undefined\<close> or
  empty, or when no live connection has it.\<close>

definition safeEmit :: "string list \<Rightarrow> string option \<Rightarrow> string \<Rightarrow> payload \<Rightarrow> emit list" where
  "safeEmit conn socketId event p =
     (case socketId of
        None \<Rightarrow> []
      | Some i \<Rightarrow> if i = [] then [] else if i \<in> set conn then [Emit (Socket i) event p] else [])"

text \<open>The connections an emit reaches: \<^verbatim>\<open>io.emit\<close> reaches every live connection,
  \<^verbatim>\<open>io.to(r)\<close> the live connections in the room \<open>r\<close>, which are the connection of
  that id and those that joined the room, and \<^verbatim>\<open>s.emit\<close> the connection \<^verbatim>\<open>s\<close>.\<close>

fun recipients :: "'p world \<Rightarrow> emit \<Rightarrow> string set" where
  "recipients w (Emit Everyone _ _) = set (connected w)"
| "recipients w (Emit (Room r) _ _) = {c \<in> set (connected w). c = r \<or> (r, c) \<in> set (rooms w)}"
| "recipients w (Emit (Socket s) _ _) = {s}"

text \<open>\<^verbatim>\<open>socket.join(room)\<close>\<close>

definition join :: "string \<Rightarrow> string \<Rightarrow> 'p world \<Rightarrow> 'p world" where
  "join room sid w = w\<lparr>rooms := (room, sid) # rooms w\<rparr>"

text \<open>\<^verbatim>\<open>boardState.fen()\<close>, which throws when \<^verbatim>\<open>boardState\<close> is not a board.\<close>

definition fen_of :: "'p engine \<Rightarrow> 'p board \<Rightarrow> error + string" where
  "fen_of eng b = (case b of Board p \<Rightarrow> Inr (chess_fen eng p) | NotBoard _ \<Rightarrow> Inl TypeError)"

subsection \<open>\<^verbatim>\<open>findCurrentGameBySocket\<close>\<close>

definition has_socket :: "string \<Rightarrow> 'p game \<Rightarrow> bool" where
  "has_socket socketId g \<longleftrightarrow>
     slot_id (student g) = Some socketId \<or> slot_id (mentor g) = Some socketId"

fun find_idx :: "('a \<Rightarrow> bool) \<Rightarrow> 'a list \<Rightarrow> nat option" where
  "find_idx P [] = None"
| "find_idx P (x # xs) = (if P x then Some 0 else map_option Suc (find_idx P xs))"

definition findCurrentGameBySocket :: "'p world \<Rightarrow> string \<Rightarrow> (ref \<times> 'p game) option" where
  "findCurrentGameBySocket w socketId =
     (case find_idx (has_socket socketId) (ongoingGames w) of
        Some i \<Rightarrow> Some (InGames i, ongoingGames w ! i)
      | None \<Rightarrow>
          (case find_idx (\<lambda>kv. has_socket socketId (snd kv)) (sessions w) of
             Some i \<Rightarrow> Some (InSessions i, snd (sessions w ! i))
           | None \<Rightarrow> None))"

text \<open>Writing to the object that \<^verbatim>\<open>findCurrentGameBySocket\<close> returned.\<close>

fun put :: "'p world \<Rightarrow> ref \<Rightarrow> 'p game \<Rightarrow> 'p world" where
  "put w (InGames i) g = w\<lparr>ongoingGames := (ongoingGames w)[i := g]\<rparr>"
| "put w (InSessions i) g =
     w\<lparr>sessions := (sessions w)[i := (fst (sessions w ! i), g)]\<rparr>"

subsection \<open>The keys of \<^verbatim>\<open>sessions\<close>\<close>

text \<open>\<^verbatim>\<open>for ... in\<close> visits the keys that are array indices first, in ascending numeric
  order, and then the other keys in the order of their creation. An array index is the
  decimal numeral, without leading zeros, of a number below \<open>2^32 - 1\<close>.\<close>

definition index_val :: "string \<Rightarrow> int" where
  "index_val k = foldl (\<lambda>n c. 10 * n + (of_char c - 48)) 0 k"

definition is_index :: "string \<Rightarrow> bool" where
  "is_index k \<longleftrightarrow>
     k \<noteq> [] \<and> (\<forall>c \<in> set k. c \<in> set ''0123456789'') \<and>
     (k = ''0'' \<or> hd k \<noteq> CHR ''0'') \<and> index_val k < 4294967295"

fun insert_index :: "string \<Rightarrow> 'a \<Rightarrow> (string \<times> 'a) list \<Rightarrow> (string \<times> 'a) list" where
  "insert_index k v [] = [(k, v)]"
| "insert_index k v (kv # rest) =
     (if is_index (fst kv) \<and> index_val (fst kv) < index_val k
      then kv # insert_index k v rest
      else (k, v) # kv # rest)"

text \<open>\<^verbatim>\<open>sessions[sessionId] = session\<close> for a key that \<^verbatim>\<open>sessions\<close> does not have.\<close>

definition register :: "string \<Rightarrow> 'a \<Rightarrow> (string \<times> 'a) list \<Rightarrow> (string \<times> 'a) list" where
  "register k v ss = (if is_index k then insert_index k v ss else ss @ [(k, v)])"

text \<open>The properties that every object inherits from \<^verbatim>\<open>Object.prototype\<close>. None of them
  is enumerable, so \<^verbatim>\<open>for ... in\<close> does not visit them. All are functions, except
  \<^verbatim>\<open>__proto__\<close>, which is the prototype itself.\<close>

definition inherited_names :: "string list" where
  "inherited_names =
     [''constructor'', ''toString'', ''toLocaleString'', ''valueOf'', ''hasOwnProperty'',
      ''isPrototypeOf'', ''propertyIsEnumerable'', ''__defineGetter__'', ''__defineSetter__'',
      ''__lookupGetter__'', ''__lookupSetter__'', ''__proto__'']"

text \<open>\<^verbatim>\<open>sessions[sessionId]\<close>: the session registered under the key, at its place; or a
  built-in object; or \<^verbatim>\<open>undefined\<close>.\<close>

datatype lookup = Own nat | Inherited | Absent

definition session_index :: "(string \<times> 'a) list \<Rightarrow> string \<Rightarrow> nat option" where
  "session_index ss k = find_idx (\<lambda>kv. fst kv = k) ss"

definition lookup_session :: "(string \<times> 'a) list \<Rightarrow> string \<Rightarrow> lookup" where
  "lookup_session ss k =
     (case session_index ss k of
        Some i \<Rightarrow> Own i
      | None \<Rightarrow> if k \<in> set inherited_names then Inherited else Absent)"

subsection \<open>\<^verbatim>\<open>newgame\<close>\<close>

text \<open>\<^verbatim>\<open>colors[i]\<close>\<close>

definition nth_js :: "string list \<Rightarrow> nat \<Rightarrow> jsval" where
  "nth_js xs i = (if i < length xs then Str (xs ! i) else Undefined)"

text \<open>The condition of the loop over \<^verbatim>\<open>ongoingGames\<close>,
  \<^verbatim>\<open>game.student.username == parsedmsg.student || game.mentor.username == parsedmsg.mentor\<close>;
  reading \<^verbatim>\<open>username\<close> of a slot that is not there throws.\<close>

definition game_matches :: "string \<Rightarrow> string \<Rightarrow> 'p game \<Rightarrow> error + bool" where
  "game_matches st mn g =
     (case student g of
        None \<Rightarrow> Inl TypeError
      | Some s \<Rightarrow>
          if username s = st then Inr True
          else (case mentor g of
                  None \<Rightarrow> Inl TypeError
                | Some m \<Rightarrow> Inr (username m = mn)))"

text \<open>The loop: the index of the first game that matches, the loop breaking there.\<close>

fun find_ongoing :: "string \<Rightarrow> string \<Rightarrow> 'p game list \<Rightarrow> error + nat option" where
  "find_ongoing st mn [] = Inr None"
| "find_ongoing st mn (g # gs) =
     (case game_matches st mn g of
        Inl e \<Rightarrow> Inl e
      | Inr True \<Rightarrow> Inr (Some 0)
      | Inr False \<Rightarrow>
          (case find_ongoing st mn gs of
             Inl e \<Rightarrow> Inl e
           | Inr r \<Rightarrow> Inr (map_option Suc r)))"

definition invalid_role_event :: string where
  "invalid_role_event = ''error : invalid value for msg.role. Requires student/mentor''"

text \<open>The branch \<^verbatim>\<open>if (newGame)\<close>.\<close>

definition newgame_create :: "'p engine \<Rightarrow> 'p world \<Rightarrow> string \<Rightarrow> string \<Rightarrow> string \<Rightarrow> string \<Rightarrow>
    'p world \<times> emit list" where
  "newgame_create eng w sid st mn role =
     (let chessState = chess_new eng;
          colors = (if role = ''student'' then [''black'', ''white'']
                    else if role = ''mentor'' then [''white'', ''black''] else []);
          studentSocket = (if role = ''student'' then sid else []);
          mentorSocket = (if role = ''student'' then [] else if role = ''mentor'' then sid else []);
          complaint = (if role = ''student'' \<or> role = ''mentor'' then []
                       else [Emit Everyone invalid_role_event NoPayload]);
          color = (if role = ''student'' then nth_js colors 0
                   else if role = ''mentor'' then nth_js colors 1 else Null);
          currentGame = \<lparr>student = Some \<lparr>username = st, id' = studentSocket, color = nth_js colors 0\<rparr>,
                         mentor = Some \<lparr>username = mn, id' = mentorSocket, color = nth_js colors 1\<rparr>,
                         boardState = Board chessState, pastStates = Past [], others = []\<rparr>
      in (w\<lparr>ongoingGames := ongoingGames w @ [currentGame]\<rparr>,
          complaint @
          [Emit Everyone ''boardstate'' (BoardStateMsg (chess_fen eng chessState) color)]))"

text \<open>The branch \<^verbatim>\<open>else if (newGame == false)\<close>, \<^verbatim>\<open>currentGame\<close> being the game at
  index \<open>i\<close>. Writing \<^verbatim>\<open>id\<close> of a slot that is not there throws. The event goes to
  \<^verbatim>\<open>io.to(socket.id)\<close>, the room of the requester's id.\<close>

definition newgame_existing :: "'p engine \<Rightarrow> 'p world \<Rightarrow> string \<Rightarrow> string \<Rightarrow> nat \<Rightarrow> 'p result" where
  "newgame_existing eng w sid role i =
     (let currentGame = ongoingGames w ! i;
          bound =
            (if role = ''student'' then
               (case student currentGame of
                  None \<Rightarrow> Inl TypeError
                | Some s \<Rightarrow> Inr (currentGame\<lparr>student := Some (s\<lparr>id' := sid\<rparr>)\<rparr>, color s))
             else if role = ''mentor'' then
               (case mentor currentGame of
                  None \<Rightarrow> Inl TypeError
                | Some m \<Rightarrow> Inr (currentGame\<lparr>mentor := Some (m\<lparr>id' := sid\<rparr>)\<rparr>, color m))
             else Inr (currentGame, Undefined))
      in case bound of
           Inl e \<Rightarrow> Inl e
         | Inr (g, color') \<Rightarrow>
             (case fen_of eng (boardState g) of
                Inl e \<Rightarrow> Inl e
              | Inr fen \<Rightarrow>
                  Inr (w\<lparr>ongoingGames := (ongoingGames w)[i := g]\<rparr>,
                       [Emit (Room sid) ''boardstate'' (BoardStateMsg fen color')])))"

definition newgame :: "'p engine \<Rightarrow> 'p world \<Rightarrow> string \<Rightarrow> string \<Rightarrow> string \<Rightarrow> string \<Rightarrow> 'p result" where
  "newgame eng w sid st mn role =
     (case find_ongoing st mn (ongoingGames w) of
        Inl e \<Rightarrow> Inl e
      | Inr None \<Rightarrow> Inr (newgame_create eng w sid st mn role)
      | Inr (Some i) \<Rightarrow> newgame_existing eng w sid role i)"

subsection \<open>\<^verbatim>\<open>createSession\<close> and \<^verbatim>\<open>joinSession\<close>\<close>

text \<open>\<^verbatim>\<open>if (session[role])\<close>: a participant, a board and an array are truthy, and so is
  every property that the session inherits.\<close>

definition has_role :: "'p game \<Rightarrow> string \<Rightarrow> bool" where
  "has_role g role \<longleftrightarrow>
     (if role = ''student'' then student g \<noteq> None
      else if role = ''mentor'' then mentor g \<noteq> None
      else role = ''boardState'' \<or> role = ''pastStates'' \<or>
           role \<in> fst ` set (others g) \<or> role \<in> set inherited_names)"

text \<open>The property of the name \<open>role\<close>, written: by the computed key \<^verbatim>\<open>[role]\<close> of the
  literal in \<^verbatim>\<open>createSession\<close>, which comes after \<^verbatim>\<open>boardState\<close> and
  \<^verbatim>\<open>pastStates\<close> and replaces them when it has their name, and by
  \<^verbatim>\<open>session[role] = ...\<close> in \<^verbatim>\<open>joinSession\<close>.\<close>

definition set_role :: "'p game \<Rightarrow> string \<Rightarrow> slot \<Rightarrow> 'p game" where
  "set_role g role s =
     (if role = ''student'' then g\<lparr>student := Some s\<rparr>
      else if role = ''mentor'' then g\<lparr>mentor := Some s\<rparr>
      else if role = ''boardState'' then g\<lparr>boardState := NotBoard s\<rparr>
      else if role = ''pastStates'' then g\<lparr>pastStates := NotPast s\<rparr>
      else g\<lparr>others := (role, s) # others g\<rparr>)"

definition quoted :: "string \<Rightarrow> string" where
  "quoted s = [CHR 0x22] @ s @ [CHR 0x22]"

definition role_color :: "string \<Rightarrow> string" where
  "role_color role = (if role = ''mentor'' then ''white'' else ''black'')"

definition exists_error :: "string \<Rightarrow> string \<Rightarrow> emit" where
  "exists_error sid sessionId =
     Emit (Socket sid) ''error'' (Text (''Session '' @ quoted sessionId @ '' already exists.''))"

definition not_found_error :: "string \<Rightarrow> string \<Rightarrow> emit" where
  "not_found_error sid sessionId =
     Emit (Socket sid) ''error'' (Text (''Session '' @ quoted sessionId @ '' not found.''))"

definition taken_error :: "string \<Rightarrow> string \<Rightarrow> emit" where
  "taken_error sid role =
     Emit (Socket sid) ''error'' (Text (''Role '' @ quoted role @ '' is already taken.''))"

definition invalid_join_error :: "string \<Rightarrow> emit" where
  "invalid_join_error sid = Emit (Socket sid) ''error'' (Text ''Invalid joinSession payload'')"

text \<open>\<^verbatim>\<open>createSession\<close>. A built-in object found under the id is truthy, so the id
  counts as taken.\<close>

definition createSession :: "'p engine \<Rightarrow> 'p world \<Rightarrow> string \<Rightarrow> string \<Rightarrow> string \<Rightarrow> string \<Rightarrow> 'p result" where
  "createSession eng w sid sessionId uname role =
     (case lookup_session (sessions w) sessionId of
        Absent \<Rightarrow>
          (let chessState = chess_new eng;
               color' = role_color role;
               session = set_role \<lparr>student = None, mentor = None, boardState = Board chessState,
                                   pastStates = Past [], others = []\<rparr>
                           role \<lparr>username = uname, id' = sid, color = Str color'\<rparr>
           in Inr (join sessionId sid (w\<lparr>sessions := register sessionId session (sessions w)\<rparr>),
                   [Emit (Socket sid) ''sessionCreated''
                      (BoardStateMsg (chess_fen eng chessState) (Str color'))]))
      | _ \<Rightarrow> Inr (w, [exists_error sid sessionId]))"

text \<open>\<^verbatim>\<open>joinSession\<close> when \<^verbatim>\<open>sessions[sessionId]\<close> is a built-in object. Every
  inherited name is a truthy property of it, \<^verbatim>\<open>__proto__\<close> of the prototype apart. A
  built-in function has no property \<^verbatim>\<open>student\<close> or \<^verbatim>\<open>mentor\<close> until the handler
  writes one; it has no \<^verbatim>\<open>boardState\<close>, so \<^verbatim>\<open>session.boardState.fen()\<close> throws, after
  the write and after \<^verbatim>\<open>socket.join\<close>, and the \<^verbatim>\<open>catch\<close> emits the error.\<close>

definition join_builtin :: "'p world \<Rightarrow> string \<Rightarrow> string \<Rightarrow> string \<Rightarrow> slot \<Rightarrow> 'p result" where
  "join_builtin w sid sessionId role x =
     (if role \<in> set inherited_names \<and> \<not> (sessionId = ''__proto__'' \<and> role = ''__proto__'')
      then Inr (w, [taken_error sid role])
      else if sessionId \<noteq> ''__proto__'' \<and> (role = ''student'' \<or> role = ''mentor'') then
        (if (sessionId, role) \<in> fst ` set (builtin_slots w)
         then Inr (w, [taken_error sid role])
         else Inr (join sessionId sid (w\<lparr>builtin_slots := ((sessionId, role), x) # builtin_slots w\<rparr>),
                   [invalid_join_error sid]))
      else Inl Unmodelled)"

text \<open>The two \<^verbatim>\<open>safeEmit\<close> calls under \<^verbatim>\<open>if (session.mentor && session.student)\<close>.\<close>

definition notify_both :: "string list \<Rightarrow> 'p game \<Rightarrow> string \<Rightarrow> emit list" where
  "notify_both conn session fen =
     (case (mentor session, student session) of
        (Some m, Some s) \<Rightarrow>
          safeEmit conn (Some (id' m)) ''boardstate'' (BoardStateMsg fen (color m)) @
          safeEmit conn (Some (id' s)) ''boardstate'' (BoardStateMsg fen (color s))
      | _ \<Rightarrow> [])"

text \<open>\<^verbatim>\<open>joinSession\<close>. The argument of the first emit calls
  \<^verbatim>\<open>session.boardState.fen()\<close>; when that throws, the slot is written and the room is
  joined already, nothing was emitted, and the \<^verbatim>\<open>catch\<close> emits the error.\<close>

definition joinSession :: "'p engine \<Rightarrow> 'p world \<Rightarrow> string \<Rightarrow> string \<Rightarrow> string \<Rightarrow> string \<Rightarrow> 'p result" where
  "joinSession eng w sid sessionId uname role =
     (let color' = role_color role;
          x = \<lparr>username = uname, id' = sid, color = Str color'\<rparr>
      in case lookup_session (sessions w) sessionId of
           Absent \<Rightarrow> Inr (w, [not_found_error sid sessionId])
         | Inherited \<Rightarrow> join_builtin w sid sessionId role x
         | Own i \<Rightarrow>
             (let session = snd (sessions w ! i)
              in if has_role session role then Inr (w, [taken_error sid role])
                 else
                   (let session' = set_role session role x;
                        w' = join sessionId sid (put w (InSessions i) session')
                    in case fen_of eng (boardState session') of
                         Inl _ \<Rightarrow> Inr (w', [invalid_join_error sid])
                       | Inr fen \<Rightarrow>
                           Inr (w', Emit (Socket sid) ''sessionJoined'' (BoardStateMsg fen (Str color')) #
                                    notify_both (connected w) session' fen))))"

subsection \<open>\<^verbatim>\<open>move\<close>, \<^verbatim>\<open>undo\<close>, \<^verbatim>\<open>setstate\<close>\<close>

text \<open>The two \<^verbatim>\<open>safeEmit\<close> calls that end the three handlers: the mentor's connection
  first, then the student's, the payload being \<^verbatim>\<open>{ boardState: fen }\<close> for the board
  \<open>p\<close> of the session.\<close>

definition broadcast_board :: "'p engine \<Rightarrow> string list \<Rightarrow> 'p game \<Rightarrow> 'p \<Rightarrow> emit list" where
  "broadcast_board eng conn g p =
     safeEmit conn (slot_id (mentor g)) ''boardstate'' (BoardStateMsg (chess_fen eng p) Undefined) @
     safeEmit conn (slot_id (student g)) ''boardstate'' (BoardStateMsg (chess_fen eng p) Undefined)"

text \<open>\<^verbatim>\<open>move\<close>: \<^verbatim>\<open>currentState.move(...)\<close> throws when \<^verbatim>\<open>boardState\<close> is not a
  board.\<close>

definition move :: "'p engine \<Rightarrow> 'p world \<Rightarrow> string \<Rightarrow> string \<Rightarrow> string \<Rightarrow> 'p result" where
  "move eng w sid from' to' =
     (case findCurrentGameBySocket w sid of
        None \<Rightarrow> Inr (w, [])
      | Some (r, currentGame) \<Rightarrow>
          (case boardState currentGame of
             NotBoard _ \<Rightarrow> Inl TypeError
           | Board currentState \<Rightarrow>
               (case chess_move eng currentState from' to' of
                  Some p \<Rightarrow>
                    Inr (put w r (currentGame\<lparr>boardState := Board p\<rparr>),
                         broadcast_board eng (connected w) currentGame p)
                | None \<Rightarrow> Inr (w, broadcast_board eng (connected w) currentGame currentState))))"

definition undo :: "'p engine \<Rightarrow> 'p world \<Rightarrow> string \<Rightarrow> 'p result" where
  "undo eng w sid =
     (case findCurrentGameBySocket w sid of
        None \<Rightarrow> Inr (w, [])
      | Some (r, currentGame) \<Rightarrow>
          (case boardState currentGame of
             NotBoard _ \<Rightarrow> Inl TypeError
           | Board currentState \<Rightarrow>
               (case chess_undo eng currentState of
                  Some p \<Rightarrow>
                    Inr (put w r (currentGame\<lparr>boardState := Board p\<rparr>),
                         broadcast_board eng (connected w) currentGame p)
                | None \<Rightarrow> Inr (w, broadcast_board eng (connected w) currentGame currentState))))"

text \<open>\<^verbatim>\<open>setstate\<close> replaces the value of \<^verbatim>\<open>boardState\<close>, whatever it was.\<close>

definition setstate :: "'p engine \<Rightarrow> 'p world \<Rightarrow> string \<Rightarrow> string \<Rightarrow> 'p result" where
  "setstate eng w sid state =
     (case findCurrentGameBySocket w sid of
        None \<Rightarrow> Inr (w, [])
      | Some (r, currentGame) \<Rightarrow>
          (case chess_load eng state of
             None \<Rightarrow> Inl EngineError
           | Some p \<Rightarrow>
               Inr (put w r (currentGame\<lparr>boardState := Board p\<rparr>),
                    broadcast_board eng (connected w) currentGame p)))"

subsection \<open>\<^verbatim>\<open>endgame\<close>\<close>

text \<open>\<^verbatim>\<open>ongoingGames.forEach\<close> with \<^verbatim>\<open>splice(index, 1)\<close> in its body: the callback runs
  at \<open>k = 0, 1, ...\<close> while \<open>k\<close> is an index of the array as it is by then, and
  \<^verbatim>\<open>index\<close> counts the calls, so it is \<open>k\<close>. After a removal the game that followed
  the removed one is at \<open>k\<close> and is not visited.\<close>

function endgame_loop ::
  "string list \<Rightarrow> string \<Rightarrow> string \<Rightarrow> nat \<Rightarrow> 'p game list \<Rightarrow> error + ('p game list \<times> emit list)" where
  "endgame_loop conn st mn k gs =
     (if k < length gs then
        (let game = gs ! k
         in case student game of
              None \<Rightarrow> Inl TypeError
            | Some s \<Rightarrow>
                if username s = st then
                  (case mentor game of
                     None \<Rightarrow> Inl TypeError
                   | Some m \<Rightarrow>
                       if username m = mn then
                         (case endgame_loop conn st mn (Suc k) (take k gs @ drop (Suc k) gs) of
                            Inl e \<Rightarrow> Inl e
                          | Inr (gs', out) \<Rightarrow>
                              Inr (gs', safeEmit conn (slot_id (mentor game)) ''reset'' NoPayload @
                                        safeEmit conn (slot_id (student game)) ''reset'' NoPayload @ out))
                       else endgame_loop conn st mn (Suc k) gs)
                else endgame_loop conn st mn (Suc k) gs)
      else Inr (gs, []))"
  by pat_completeness auto
termination
  by (relation "measure (\<lambda>(conn, st, mn, k, gs). length gs - k)") auto

declare endgame_loop.simps [simp del]

definition endgame :: "'p world \<Rightarrow> string \<Rightarrow> string \<Rightarrow> 'p result" where
  "endgame w st mn =
     (case endgame_loop (connected w) st mn 0 (ongoingGames w) of
        Inl e \<Rightarrow> Inl e
      | Inr (gs, out) \<Rightarrow> Inr (w\<lparr>ongoingGames := gs\<rparr>, out))"

subsection \<open>The relay handlers\<close>

text \<open>\<^verbatim>\<open>lastmove\<close> emits to the mentor's connection and to the student's, whoever sent
  it.\<close>

definition lastmove :: "'p world \<Rightarrow> string \<Rightarrow> string \<Rightarrow> string \<Rightarrow> 'p result" where
  "lastmove w sid from' to' =
     (case findCurrentGameBySocket w sid of
        None \<Rightarrow> Inr (w, [])
      | Some (r, currentGame) \<Rightarrow>
          Inr (w, safeEmit (connected w) (slot_id (mentor currentGame)) ''lastmove'' (FromTo from' to') @
                  safeEmit (connected w) (slot_id (student currentGame)) ''lastmove'' (FromTo from' to')))"

text \<open>The body that \<^verbatim>\<open>addgrey\<close>, \<^verbatim>\<open>removegrey\<close>, \<^verbatim>\<open>mousexy\<close>,
  \<^verbatim>\<open>piecedrop\<close>, \<^verbatim>\<open>piecedrag\<close> and \<^verbatim>\<open>highlight\<close> share, the event and the payload
  apart:
  \<^verbatim>\<open>if (currentGame.mentor.id != clientSocket) safeEmit(currentGame.mentor?.id, ...)
  else if (currentGame.student.id != clientSocket) safeEmit(currentGame.student?.id, ...)
  else console.log(...)\<close>.
  The two conditions read \<^verbatim>\<open>id\<close> without \<^verbatim>\<open>?.\<close> and throw when the slot is not
  there.\<close>

definition relay :: "'p world \<Rightarrow> string \<Rightarrow> string \<Rightarrow> payload \<Rightarrow> 'p result" where
  "relay w clientSocket event p =
     (case findCurrentGameBySocket w clientSocket of
        None \<Rightarrow> Inr (w, [])
      | Some (r, currentGame) \<Rightarrow>
          (case mentor currentGame of
             None \<Rightarrow> Inl TypeError
           | Some m \<Rightarrow>
               if id' m \<noteq> clientSocket then
                 Inr (w, safeEmit (connected w) (slot_id (mentor currentGame)) event p)
               else
                 (case student currentGame of
                    None \<Rightarrow> Inl TypeError
                  | Some s \<Rightarrow>
                      if id' s \<noteq> clientSocket then
                        Inr (w, safeEmit (connected w) (slot_id (student currentGame)) event p)
                      else Inr (w, []))))"

definition addgrey :: "'p world \<Rightarrow> string \<Rightarrow> string \<Rightarrow> 'p result" where
  "addgrey w sid to' = relay w sid ''addgrey'' (To to')"

definition removegrey :: "'p world \<Rightarrow> string \<Rightarrow> 'p result" where
  "removegrey w sid = relay w sid ''removegrey'' EmptyObj"

definition mousexy :: "'p world \<Rightarrow> string \<Rightarrow> string \<Rightarrow> string \<Rightarrow> 'p result" where
  "mousexy w sid x y = relay w sid ''mousexy'' (XY x y)"

definition piecedrop :: "'p world \<Rightarrow> string \<Rightarrow> 'p result" where
  "piecedrop w sid = relay w sid ''piecedrop'' EmptyObj"

definition piecedrag :: "'p world \<Rightarrow> string \<Rightarrow> string \<Rightarrow> 'p result" where
  "piecedrag w sid piece = relay w sid ''piecedrag'' (Piece piece)"

definition highlight :: "'p world \<Rightarrow> string \<Rightarrow> string \<Rightarrow> string \<Rightarrow> 'p result" where
  "highlight w sid from' to' = relay w sid ''highlight'' (FromTo from' to')"


subsection \<open>The server\<close>

datatype event =
    NewGame string string string
  | CreateSession string string string
  | JoinSession string string string
  | Move string string
  | EndGame string string
  | Undo
  | SetState string
  | LastMove string string
  | AddGrey string
  | RemoveGrey
  | MouseXY string string
  | PieceDrop
  | PieceDrag string
  | Highlight string string

text \<open>\<^verbatim>\<open>socket.on(...)\<close>: the handler of each event, \<open>sid\<close> being \<^verbatim>\<open>socket.id\<close>.\<close>

fun handle :: "'p engine \<Rightarrow> 'p world \<Rightarrow> string \<Rightarrow> event \<Rightarrow> 'p result" where
  "handle eng w sid (NewGame st mn role) = newgame eng w sid st mn role"
| "handle eng w sid (CreateSession sessionId uname role) = createSession eng w sid sessionId uname role"
| "handle eng w sid (JoinSession sessionId uname role) = joinSession eng w sid sessionId uname role"
| "handle eng w sid (Move from' to') = move eng w sid from' to'"
| "handle eng w sid (EndGame st mn) = endgame w st mn"
| "handle eng w sid Undo = undo eng w sid"
| "handle eng w sid (SetState state) = setstate eng w sid state"
| "handle eng w sid (LastMove from' to') = lastmove w sid from' to'"
| "handle eng w sid (AddGrey to') = addgrey w sid to'"
| "handle eng w sid RemoveGrey = removegrey w sid"
| "handle eng w sid (MouseXY x y) = mousexy w sid x y"
| "handle eng w sid PieceDrop = piecedrop w sid"
| "handle eng w sid (PieceDrag piece) = piecedrag w sid piece"
| "handle eng w sid (Highlight from' to') = highlight w sid from' to'"

text \<open>The stores are empty when the process starts (\<^verbatim>\<open>const ongoingGames = []\<close>,
  \<^verbatim>\<open>const sessions = {}\<close>), and no connection has joined a room.\<close>

definition init :: "string list \<Rightarrow> 'p world" where
  "init conn = \<lparr>ongoingGames = [], sessions = [], connected = conn, rooms = [], builtin_slots = []\<rparr>"

text \<open>Connections come and go: the live connections are then \<open>conn\<close>, and a connection
  that is gone has left its rooms.\<close>

definition reconnect :: "string list \<Rightarrow> 'p world \<Rightarrow> 'p world" where
  "reconnect conn w = w\<lparr>connected := conn, rooms := filter (\<lambda>rc. snd rc \<in> set conn) (rooms w)\<rparr>"

text \<open>The states of a run: the server handles one event after the other, from any
  connection, and connections come and go in between.\<close>

inductive reachable :: "'p engine \<Rightarrow> 'p world \<Rightarrow> bool" for eng :: "'p engine" where
  start: "reachable eng (init conn)"
| event: "reachable eng w \<Longrightarrow> handle eng w sid ev = Inr (w', out) \<Longrightarrow> reachable eng w'"
| connection: "reachable eng w \<Longrightarrow> reachable eng (reconnect conn w)"

subsection \<open>A small engine and some states, for concrete runs\<close>

text \<open>A board is the list of the moves made, the last one first; a move is refused when
  its two squares are the same.\<close>

definition demo_engine :: "string list engine" where
  "demo_engine =
     \<lparr>chess_new = [],
      chess_load = (\<lambda>s. if s = [] then None else Some [s]),
      chess_fen = concat,
      chess_move = (\<lambda>p f t. if f = t then None else Some ((f @ t) # p)),
      chess_undo = (\<lambda>p. case p of [] \<Rightarrow> None | m # ms \<Rightarrow> Some ms)\<rparr>"

definition alice :: "string \<Rightarrow> slot" where
  "alice i = \<lparr>username = ''Alice'', id' = i, color = Str ''black''\<rparr>"

definition bob :: "string \<Rightarrow> slot" where
  "bob i = \<lparr>username = ''Bob'', id' = i, color = Str ''white''\<rparr>"

definition carol :: "string \<Rightarrow> slot" where
  "carol i = \<lparr>username = ''Carol'', id' = i, color = Str ''black''\<rparr>"

definition dave :: "string \<Rightarrow> slot" where
  "dave i = \<lparr>username = ''Dave'', id' = i, color = Str ''white''\<rparr>"

definition three :: "string list" where
  "three = [''s1'', ''s2'', ''s3'']"

text \<open>After \<^verbatim>\<open>newgame\<close> from Alice, a student, on connection \<open>s1\<close>.\<close>

definition demo_game :: "string list world" where
  "demo_game =
     \<lparr>ongoingGames = [\<lparr>student = Some (alice ''s1''), mentor = Some (bob []),
                        boardState = Board [], pastStates = Past [], others = []\<rparr>],
      sessions = [], connected = three, rooms = [], builtin_slots = []\<rparr>"

text \<open>After \<^verbatim>\<open>newgame\<close> from Bob, her mentor, on connection \<open>s2\<close>.\<close>

definition demo_paired :: "string list world" where
  "demo_paired =
     \<lparr>ongoingGames = [\<lparr>student = Some (alice ''s1''), mentor = Some (bob ''s2''),
                        boardState = Board [], pastStates = Past [], others = []\<rparr>],
      sessions = [], connected = three, rooms = [], builtin_slots = []\<rparr>"

text \<open>After the move e2-e4 in that game.\<close>

definition demo_moved :: "string list world" where
  "demo_moved =
     \<lparr>ongoingGames = [\<lparr>student = Some (alice ''s1''), mentor = Some (bob ''s2''),
                        boardState = Board [''e2e4''], pastStates = Past [], others = []\<rparr>],
      sessions = [], connected = three, rooms = [], builtin_slots = []\<rparr>"

text \<open>After \<^verbatim>\<open>newgame\<close> from Carol, a student, on \<open>s3\<close>, and then from Alice, a student,
  on \<open>s1\<close>: two games, Carol's first.\<close>

definition demo_two :: "string list world" where
  "demo_two =
     \<lparr>ongoingGames = [\<lparr>student = Some (carol ''s3''), mentor = Some (dave []),
                        boardState = Board [], pastStates = Past [], others = []\<rparr>,
                      \<lparr>student = Some (alice ''s1''), mentor = Some (bob []),
                        boardState = Board [], pastStates = Past [], others = []\<rparr>],
      sessions = [], connected = three, rooms = [], builtin_slots = []\<rparr>"

text \<open>After \<^verbatim>\<open>createSession\<close> from Alice, a student, on \<open>s1\<close>, with the session id
  \<open>abc\<close>.\<close>

definition demo_named :: "string list world" where
  "demo_named =
     \<lparr>ongoingGames = [],
      sessions = [(''abc'', \<lparr>student = Some (alice ''s1''), mentor = None,
                             boardState = Board [], pastStates = Past [], others = []\<rparr>)],
      connected = three, rooms = [(''abc'', ''s1'')], builtin_slots = []\<rparr>"

text \<open>After \<^verbatim>\<open>joinSession\<close> from Bob, a mentor, on \<open>s2\<close>, for that session.\<close>

definition demo_joined :: "string list world" where
  "demo_joined =
     \<lparr>ongoingGames = [],
      sessions = [(''abc'', \<lparr>student = Some (alice ''s1''), mentor = Some (bob ''s2''),
                             boardState = Board [], pastStates = Past [], others = []\<rparr>)],
      connected = three, rooms = [(''abc'', ''s2''), (''abc'', ''s1'')], builtin_slots = []\<rparr>"

text \<open>After \<^verbatim>\<open>newgame\<close> from Alice, a student, on \<open>s1\<close>, and \<^verbatim>\<open>createSession\<close> from
  Carol, a student, on \<open>s3\<close>, with the session id \<open>s2\<close>, which is the id of Bob's
  connection.\<close>

definition demo_room :: "string list world" where
  "demo_room =
     \<lparr>ongoingGames = [\<lparr>student = Some (alice ''s1''), mentor = Some (bob []),
                        boardState = Board [], pastStates = Past [], others = []\<rparr>],
      sessions = [(''s2'', \<lparr>student = Some (carol ''s3''), mentor = None,
                            boardState = Board [], pastStates = Past [], others = []\<rparr>)],
      connected = three, rooms = [(''s2'', ''s3'')], builtin_slots = []\<rparr>"

text \<open>After \<^verbatim>\<open>createSession\<close> from Alice on \<open>s1\<close> with the session id \<open>xyz\<close> and
  the role \<open>boardState\<close>: the board of the session is gone.\<close>

definition demo_clobbered :: "string list world" where
  "demo_clobbered =
     \<lparr>ongoingGames = [],
      sessions = [(''xyz'', \<lparr>student = None, mentor = None,
                             boardState = NotBoard (alice ''s1''), pastStates = Past [], others = []\<rparr>)],
      connected = three, rooms = [(''xyz'', ''s1'')], builtin_slots = []\<rparr>"

subsection \<open>Notions the properties are stated with\<close>

text \<open>A connection id that \<^verbatim>\<open>safeEmit\<close> delivers to: not empty, and live.\<close>

definition live :: "string list \<Rightarrow> string \<Rightarrow> bool" where
  "live conn c \<longleftrightarrow> c \<noteq> [] \<and> c \<in> set conn"

text \<open>The bound connections of a game: the live connections that one of its two slots
  names.\<close>

definition bound_connections :: "string list \<Rightarrow> 'p game \<Rightarrow> string set" where
  "bound_connections conn g =
     {c. live conn c \<and> (slot_id (mentor g) = Some c \<or> slot_id (student g) = Some c)}"

text \<open>The connection \<open>sid\<close> is bound to a slot of the game.\<close>

definition bound_to :: "string \<Rightarrow> 'p game \<Rightarrow> bool" where
  "bound_to sid g \<longleftrightarrow>
     (case student g of Some x \<Rightarrow> id' x = sid | None \<Rightarrow> False) \<or>
     (case mentor g of Some x \<Rightarrow> id' x = sid | None \<Rightarrow> False)"

text \<open>The session of a connection: the first game of \<^verbatim>\<open>ongoingGames\<close> that the
  connection is bound to, at index \<open>i\<close>; when it is bound to no game, the first session of
  \<^verbatim>\<open>sessions\<close> that it is bound to.\<close>

definition attributed :: "'p world \<Rightarrow> string \<Rightarrow> ref \<Rightarrow> 'p game \<Rightarrow> bool" where
  "attributed w sid r g \<longleftrightarrow>
     (case r of
        InGames i \<Rightarrow>
          i < length (ongoingGames w) \<and> g = ongoingGames w ! i \<and> bound_to sid g \<and>
          list_all (\<lambda>g'. \<not> bound_to sid g') (take i (ongoingGames w))
      | InSessions i \<Rightarrow>
          i < length (sessions w) \<and> g = snd (sessions w ! i) \<and> bound_to sid g \<and>
          list_all (\<lambda>g'. \<not> bound_to sid g') (ongoingGames w) \<and>
          list_all (\<lambda>kv. \<not> bound_to sid (snd kv)) (take i (sessions w)))"

text \<open>The six events whose handlers share the body \<open>relay\<close>, with the event and the
  payload they forward.\<close>

fun relay_event :: "event \<Rightarrow> (string \<times> payload) option" where
  "relay_event (AddGrey to') = Some (''addgrey'', To to')"
| "relay_event RemoveGrey = Some (''removegrey'', EmptyObj)"
| "relay_event (MouseXY x y) = Some (''mousexy'', XY x y)"
| "relay_event PieceDrop = Some (''piecedrop'', EmptyObj)"
| "relay_event (PieceDrag piece) = Some (''piecedrag'', Piece piece)"
| "relay_event (Highlight from' to') = Some (''highlight'', FromTo from' to')"
| "relay_event _ = None"

text \<open>The sender is the only participant with a bound connection: it is in a slot, and
  a slot that exists has the sender's id or no id.\<close>

definition sole_participant :: "string \<Rightarrow> 'p game \<Rightarrow> bool" where
  "sole_participant sid g \<longleftrightarrow>
     bound_to sid g \<and>
     (case student g of Some x \<Rightarrow> id' x = sid \<or> id' x = [] | None \<Rightarrow> True) \<and>
     (case mentor g of Some x \<Rightarrow> id' x = sid \<or> id' x = [] | None \<Rightarrow> True)"

text \<open>The game has the student name or the mentor name of a \<^verbatim>\<open>newgame\<close> request.\<close>

definition names_match :: "string \<Rightarrow> string \<Rightarrow> 'p game \<Rightarrow> bool" where
  "names_match st mn g \<longleftrightarrow>
     map_option username (student g) = Some st \<or> map_option username (mentor g) = Some mn"

text \<open>The slot of a role, for the two roles that have one.\<close>

definition role_slot :: "string \<Rightarrow> 'p game \<Rightarrow> slot option" where
  "role_slot role g = (if role = ''student'' then student g else mentor g)"




definition is_board :: "'p board \<Rightarrow> bool" where
  "is_board b = (case b of Board _ \<Rightarrow> True | NotBoard _ \<Rightarrow> False)"

text \<open>What a handler may do to a slot: one that is there keeps its name and its color; one
  that is not there stays away or appears with the color \<open>c\<close>.\<close>

definition slot_evolved :: "jsval \<Rightarrow> slot option \<Rightarrow> slot option \<Rightarrow> bool" where
  "slot_evolved c s s' \<longleftrightarrow>
     (case s of
        Some x \<Rightarrow> (\<exists>x'. s' = Some x' \<and> username x' = username x \<and> color x' = color x)
      | None \<Rightarrow> (case s' of None \<Rightarrow> True | Some x' \<Rightarrow> color x' = c))"

text \<open>What a handler may do to a game or a session that exists: the past states stay, a
  board stays a board, a student appears black and a mentor white.\<close>

definition game_evolved :: "'p game \<Rightarrow> 'p game \<Rightarrow> bool" where
  "game_evolved g g' \<longleftrightarrow>
     pastStates g' = pastStates g \<and>
     (is_board (boardState g) \<longrightarrow> is_board (boardState g')) \<and>
     slot_evolved (Str ''black'') (student g) (student g') \<and>
     slot_evolved (Str ''white'') (mentor g) (mentor g')"

text \<open>The games that exist evolve, each in its place, or some of them are removed.\<close>

definition games_step :: "'p game list \<Rightarrow> 'p game list \<Rightarrow> bool" where
  "games_step gs gs' \<longleftrightarrow> list_all2 game_evolved gs gs' \<or> subseq gs' gs"

text \<open>The colors of the two slots of a game, and the colors of a game as its creator's
  role decides them.\<close>

definition game_colors :: "'p game \<Rightarrow> jsval option \<times> jsval option" where
  "game_colors g = (map_option color (student g), map_option color (mentor g))"

definition creator_colors :: "string \<Rightarrow> jsval option \<times> jsval option" where
  "creator_colors role =
     (if role = ''student'' then (Some (Str ''black''), Some (Str ''white''))
      else (Some (Str ''white''), Some (Str ''black'')))"

text \<open>A game as \<^verbatim>\<open>newgame\<close> creates it for a role, and a session as
  \<^verbatim>\<open>createSession\<close> creates it for a role.\<close>

definition created :: "string \<Rightarrow> 'p game \<Rightarrow> bool" where
  "created role g \<longleftrightarrow>
     student g \<noteq> None \<and> mentor g \<noteq> None \<and> pastStates g = Past [] \<and> is_board (boardState g) \<and>
     (role = ''student'' \<or> role = ''mentor'' \<longrightarrow> game_colors g = creator_colors role)"

definition opened :: "string \<Rightarrow> 'p game \<Rightarrow> bool" where
  "opened role s \<longleftrightarrow>
     (role \<noteq> ''pastStates'' \<longrightarrow> pastStates s = Past []) \<and>
     slot_evolved (Str ''black'') None (student s) \<and>
     slot_evolved (Str ''white'') None (mentor s)"

text \<open>The sessions that exist evolve, each under its key, or one session is added.\<close>

definition sessions_evolved :: "(string \<times> 'p game) list \<Rightarrow> (string \<times> 'p game) list \<Rightarrow> bool" where
  "sessions_evolved ss ss' \<longleftrightarrow>
     list_all2 (\<lambda>kv kv'. fst kv' = fst kv \<and> game_evolved (snd kv) (snd kv')) ss ss'"

definition sessions_step :: "(string \<times> 'p game) list \<Rightarrow> (string \<times> 'p game) list \<Rightarrow> bool" where
  "sessions_step ss ss' \<longleftrightarrow>
     sessions_evolved ss ss' \<or>
     (\<exists>k role s. k \<notin> fst ` set ss \<and> ss' = register k s ss \<and> opened role s)"

text \<open>Every game of \<^verbatim>\<open>ongoingGames\<close> has its two slots and a board.\<close>

definition games_wf :: "'p world \<Rightarrow> bool" where
  "games_wf w \<longleftrightarrow>
     (\<forall>g \<in> set (ongoingGames w). student g \<noteq> None \<and> mentor g \<noteq> None \<and> is_board (boardState g))"



text \<open>The colors are a complementary pair: in a game the two slots are black and white, one
  each; in a session a student is black and a mentor is white.\<close>

definition session_colors_ok :: "'p game \<Rightarrow> bool" where
  "session_colors_ok s \<longleftrightarrow>
     (\<forall>x. student s = Some x \<longrightarrow> color x = Str ''black'') \<and>
     (\<forall>x. mentor s = Some x \<longrightarrow> color x = Str ''white'')"

definition colors_ok :: "'p world \<Rightarrow> bool" where
  "colors_ok w \<longleftrightarrow>
     (\<forall>g \<in> set (ongoingGames w).
        game_colors g = creator_colors ''student'' \<or> game_colors g = creator_colors ''mentor'') \<and>
     (\<forall>kv \<in> set (sessions w). session_colors_ok (snd kv))"

text \<open>The role of a \<^verbatim>\<open>newgame\<close> request is one of the two the handler's comment names.\<close>

fun role_documented :: "event \<Rightarrow> bool" where
  "role_documented (NewGame st mn role) \<longleftrightarrow> role = ''student'' \<or> role = ''mentor''"
| "role_documented _ \<longleftrightarrow> True"

text \<open>The stores with every \<^verbatim>\<open>pastStates\<close> emptied, and a result with the stores so
  emptied. A handler that gives the same result on them, up to \<^verbatim>\<open>pastStates\<close>, does
  not depend on what the field holds.\<close>

definition wipe_game :: "'p game \<Rightarrow> 'p game" where
  "wipe_game g = g\<lparr>pastStates := Past []\<rparr>"

definition wipe :: "'p world \<Rightarrow> 'p world" where
  "wipe w = w\<lparr>ongoingGames := map wipe_game (ongoingGames w),
               sessions := map (apsnd wipe_game) (sessions w)\<rparr>"

definition upto_past :: "'p result \<Rightarrow> 'p result" where
  "upto_past res = (case res of Inl e \<Rightarrow> Inl e | Inr (w', out) \<Rightarrow> Inr (wipe w', out))"

text \<open>The connections in the room of a name: the connection of that id, and those that
  joined.\<close>

definition room_members :: "'p world \<Rightarrow> string \<Rightarrow> string set" where
  "room_members w r = {c \<in> set (connected w). c = r \<or> (r, c) \<in> set (rooms w)}"

section \<open>Properties\<close>

subsection \<open>Searching a list\<close>

lemma find_idx_None: "find_idx P xs = None \<longleftrightarrow> (\<forall>x \<in> set xs. \<not> P x)"
  by (induction xs) auto

lemma find_idx_Some:
  "find_idx P xs = Some i \<Longrightarrow> i < length xs \<and> P (xs ! i) \<and> (\<forall>j < i. \<not> P (xs ! j))"
proof (induction xs arbitrary: i)
  case Nil
  then show ?case by simp
next
  case (Cons x xs)
  show ?case
  proof (cases "P x")
    case True
    with Cons.prems show ?thesis by simp
  next
    case False
    with Cons.prems obtain k where k: "find_idx P xs = Some k" "i = Suc k"
      by auto
    from Cons.IH [OF k(1)] False k(2) show ?thesis
      by (auto simp: nth_Cons split: nat.splits)
  qed
qed


lemma session_index_None: "session_index ss k = None \<longleftrightarrow> k \<notin> fst ` set ss"
  by (auto simp: session_index_def find_idx_None)




lemma find_idx_iff:
  "find_idx P xs = Some i \<longleftrightarrow> i < length xs \<and> P (xs ! i) \<and> list_all (\<lambda>x. \<not> P x) (take i xs)"
proof (induction xs arbitrary: i)
  case Nil
  then show ?case by simp
next
  case (Cons x xs)
  show ?case
  proof (cases i)
    case 0
    then show ?thesis by (auto split: if_splits)
  next
    case (Suc k)
    with Cons [of k] show ?thesis by auto
  qed
qed

lemma lookup_session_Own:
  "k \<in> fst ` set ss \<Longrightarrow> \<exists>i. lookup_session ss k = Own i \<and> session_index ss k = Some i"
  using session_index_None [of ss k]
  by (cases "session_index ss k") (auto simp: lookup_session_def)

lemma lookup_session_Absent:
  "lookup_session ss k = Absent \<longleftrightarrow> k \<notin> fst ` set ss \<and> k \<notin> set inherited_names"
  using session_index_None [of ss k]
  by (cases "session_index ss k") (auto simp: lookup_session_def)

lemma lookup_session_Inherited:
  "lookup_session ss k = Inherited \<longleftrightarrow> k \<notin> fst ` set ss \<and> k \<in> set inherited_names"
  using session_index_None [of ss k]
  by (cases "session_index ss k") (auto simp: lookup_session_def)

lemma lookup_session_index:
  "lookup_session ss k = Own i \<longleftrightarrow> session_index ss k = Some i"
  by (cases "session_index ss k") (auto simp: lookup_session_def)

subsection \<open>Creating a session twice\<close>

text \<open>
  C3. When \<open>sessionId\<close> is a key of \<^verbatim>\<open>sessions\<close>, \<^verbatim>\<open>createSession\<close> with that id
  emits one \<^verbatim>\<open>error\<close> event, to the connection that asked, and returns the state as
  it was: no field of the session of that id is changed, no other session or game is,
  no session is added, and no room is joined.
\<close>

theorem createSession_duplicate:
  assumes "sessionId \<in> fst ` set (sessions w)"
  shows "createSession eng w sid sessionId uname role =
           Inr (w, [Emit (Socket sid) ''error''
                      (Text (''Session '' @ quoted sessionId @ '' already exists.''))])"
proof -
  from lookup_session_Own [OF assms]
  obtain i where "lookup_session (sessions w) sessionId = Own i" by blast
  then show ?thesis by (simp add: createSession_def exists_error_def)
qed

theorem createSession_duplicate_witness:
  "''abc'' \<in> fst ` set (sessions demo_named) \<and>
   createSession demo_engine demo_named ''s2'' ''abc'' ''Bob'' ''mentor'' =
     Inr (demo_named, [Emit (Socket ''s2'') ''error''
                         (Text (''Session '' @ quoted ''abc'' @ '' already exists.''))])"
proof -
  have h: "''abc'' \<in> fst ` set (sessions demo_named)"
    by (simp add: demo_named_def)
  from createSession_duplicate [OF h] h show ?thesis by simp
qed

subsection \<open>Emitting and finding\<close>

lemmas demo_defs =
  demo_engine_def demo_game_def demo_paired_def demo_moved_def demo_two_def demo_named_def
  demo_joined_def demo_room_def demo_clobbered_def alice_def bob_def carol_def dave_def three_def

lemma safeEmit_Some:
  "safeEmit conn (Some c) ev p = (if live conn c then [Emit (Socket c) ev p] else [])"
  by (simp add: safeEmit_def live_def)

lemma safeEmit_None: "safeEmit conn None ev p = []"
  by (simp add: safeEmit_def)

lemma set_safeEmit:
  "set (safeEmit conn i ev p) = (\<lambda>c. Emit (Socket c) ev p) ` {c. live conn c \<and> i = Some c}"
  by (cases i) (auto simp: safeEmit_Some safeEmit_None)

lemma set_both_slots:
  "set (safeEmit conn (slot_id (mentor g)) ev p @ safeEmit conn (slot_id (student g)) ev p) =
     (\<lambda>c. Emit (Socket c) ev p) ` bound_connections conn g"
  by (auto simp: set_safeEmit bound_connections_def)




lemma find_found:
  assumes "findCurrentGameBySocket w sid = Some (r, g)"
  shows "has_socket sid g"
    and "(\<exists>i. r = InGames i \<and> i < length (ongoingGames w) \<and> ongoingGames w ! i = g) \<or>
         (\<exists>i. r = InSessions i \<and> i < length (sessions w) \<and> snd (sessions w ! i) = g)"
  using assms
  by (auto simp: findCurrentGameBySocket_def split: option.splits dest: find_idx_Some)

lemma put_same:
  assumes "findCurrentGameBySocket w sid = Some (r, g)"
  shows "put w r g = w"
  using find_found(2) [OF assms] by (auto simp: list_update_same_conv)


lemma has_socket_bound: "has_socket sid g \<longleftrightarrow> bound_to sid g"
  by (auto simp: has_socket_def bound_to_def slot_id_def split: option.splits)

text \<open>\<^verbatim>\<open>findCurrentGameBySocket\<close> returns the session of the connection, and it finds
  one whenever the connection is bound to a game or to a session.\<close>

lemma attributed_find:
  "attributed w sid r g \<longleftrightarrow> findCurrentGameBySocket w sid = Some (r, g)"
proof (cases r)
  case (InGames i)
  show ?thesis
  proof (cases "find_idx (has_socket sid) (ongoingGames w)")
    case None
    then have "\<forall>x \<in> set (ongoingGames w). \<not> bound_to sid x"
      by (simp add: find_idx_None has_socket_bound)
    with None InGames show ?thesis
      by (auto simp: attributed_def findCurrentGameBySocket_def split: option.splits)
  next
    case (Some j)
    have "find_idx (has_socket sid) (ongoingGames w) = Some i \<longleftrightarrow>
          i < length (ongoingGames w) \<and> bound_to sid (ongoingGames w ! i) \<and>
          list_all (\<lambda>x. \<not> bound_to sid x) (take i (ongoingGames w))"
      by (simp add: find_idx_iff has_socket_bound)
    with Some InGames show ?thesis
      by (auto simp: attributed_def findCurrentGameBySocket_def)
  qed
next
  case (InSessions i)
  show ?thesis
  proof (cases "find_idx (has_socket sid) (ongoingGames w)")
    case (Some j)
    from find_idx_Some [OF Some] have "j < length (ongoingGames w)" "bound_to sid (ongoingGames w ! j)"
      by (simp_all add: has_socket_bound)
    then have "\<not> list_all (\<lambda>g'. \<not> bound_to sid g') (ongoingGames w)"
      by (auto simp: list_all_iff)
    with Some InSessions show ?thesis
      by (simp add: attributed_def findCurrentGameBySocket_def)
  next
    case None
    then have n: "list_all (\<lambda>g'. \<not> bound_to sid g') (ongoingGames w)"
      by (simp add: find_idx_None has_socket_bound list_all_iff)
    have "find_idx (\<lambda>kv. has_socket sid (snd kv)) (sessions w) = Some i \<longleftrightarrow>
          i < length (sessions w) \<and> bound_to sid (snd (sessions w ! i)) \<and>
          list_all (\<lambda>kv. \<not> bound_to sid (snd kv)) (take i (sessions w))"
      by (simp add: find_idx_iff has_socket_bound)
    with None n InSessions show ?thesis
      by (cases "find_idx (\<lambda>kv. has_socket sid (snd kv)) (sessions w)")
         (auto simp: attributed_def findCurrentGameBySocket_def)
  qed
qed

lemma bound_is_attributed:
  "(\<exists>g \<in> set (ongoingGames w) \<union> snd ` set (sessions w). bound_to sid g) \<longleftrightarrow>
   (\<exists>r g. attributed w sid r g)"
proof
  assume "\<exists>g \<in> set (ongoingGames w) \<union> snd ` set (sessions w). bound_to sid g"
  then have "find_idx (has_socket sid) (ongoingGames w) \<noteq> None \<or>
             find_idx (\<lambda>kv. has_socket sid (snd kv)) (sessions w) \<noteq> None"
    by (auto simp: find_idx_None has_socket_bound)
  then have "findCurrentGameBySocket w sid \<noteq> None"
    by (auto simp: findCurrentGameBySocket_def split: option.splits)
  then show "\<exists>r g. attributed w sid r g"
    by (auto simp: attributed_find)
next
  assume "\<exists>r g. attributed w sid r g"
  then obtain r g where a: "attributed w sid r g" by blast
  then show "\<exists>g \<in> set (ongoingGames w) \<union> snd ` set (sessions w). bound_to sid g"
    by (cases r) (auto simp: attributed_def)
qed

lemma attributed_unique:
  "attributed w sid r g \<Longrightarrow> attributed w sid r' g' \<Longrightarrow> r' = r \<and> g' = g"
  by (simp add: attributed_find)

subsection \<open>Joining a session\<close>








text \<open>In a session whose board \<^verbatim>\<open>createSession\<close> replaced by its creator, joining
  binds the slot and joins the room, but the requester gets the error of the
  \<^verbatim>\<open>catch\<close> and no position.\<close>

lemma join_clobbered:
  "joinSession demo_engine demo_clobbered ''s2'' ''xyz'' ''Bob'' ''mentor'' =
     Inr (demo_clobbered
            \<lparr>sessions := [(''xyz'', (snd (sessions demo_clobbered ! 0))\<lparr>mentor := Some (bob ''s2'')\<rparr>)],
             rooms := [(''xyz'', ''s2''), (''xyz'', ''s1'')]\<rparr>,
          [Emit (Socket ''s2'') ''error'' (Text ''Invalid joinSession payload'')])"
  by (simp add: joinSession_def lookup_session_def session_index_def has_role_def set_role_def
        join_def fen_of_def role_color_def invalid_join_error_def Let_def demo_defs)



subsection \<open>Moves and undo\<close>

lemma att_demo_paired:
  "attributed demo_paired ''s1'' (InGames 0) (ongoingGames demo_paired ! 0)"
  by (simp add: attributed_def bound_to_def demo_defs)


lemma att_demo_game:
  "attributed demo_game ''s1'' (InGames 0) (ongoingGames demo_game ! 0)"
  by (simp add: attributed_def bound_to_def demo_defs)

lemma att_demo_named:
  "attributed demo_named ''s1'' (InSessions 0) (snd (sessions demo_named ! 0))"
  by (simp add: attributed_def bound_to_def demo_defs)

lemma att_demo_joined:
  "attributed demo_joined ''s1'' (InSessions 0) (snd (sessions demo_joined ! 0))"
  "attributed demo_joined ''s2'' (InSessions 0) (snd (sessions demo_joined ! 0))"
  by (simp_all add: attributed_def bound_to_def demo_defs)

lemma bound_demo_paired:
  "bound_connections (connected demo_paired) (ongoingGames demo_paired ! 0) = {''s1'', ''s2''}"
  by (auto simp: bound_connections_def live_def slot_id_def demo_defs)


lemma bound_demo_joined:
  "bound_connections (connected demo_joined) (snd (sessions demo_joined ! 0)) = {''s1'', ''s2''}"
  by (auto simp: bound_connections_def live_def slot_id_def demo_defs)

lemma bound_board [simp]:
  "bound_connections conn (g\<lparr>boardState := b\<rparr>) = bound_connections conn g"
  by (simp add: bound_connections_def)






subsection \<open>The relay\<close>

lemma handle_relay:
  "relay_event ev = Some (n, p) \<Longrightarrow> handle eng w sid ev = relay w sid n p"
  by (cases ev)
     (auto simp: addgrey_def removegrey_def mousexy_def piecedrop_def piecedrag_def highlight_def)

lemma lastmove_found:
  assumes "findCurrentGameBySocket w sid = Some (r, g)"
  shows "\<exists>out. handle eng w sid (LastMove from' to') = Inr (w, out) \<and>
            set out = (\<lambda>c. Emit (Socket c) ''lastmove'' (FromTo from' to')) `
                        bound_connections (connected w) g"
proof -
  let ?out = "safeEmit (connected w) (slot_id (mentor g)) ''lastmove'' (FromTo from' to') @
              safeEmit (connected w) (slot_id (student g)) ''lastmove'' (FromTo from' to')"
  have "handle eng w sid (LastMove from' to') = Inr (w, ?out)"
    using assms by (simp add: lastmove_def)
  moreover have "set ?out = (\<lambda>c. Emit (Socket c) ''lastmove'' (FromTo from' to')) `
                        bound_connections (connected w) g"
    by (rule set_both_slots)
  ultimately show ?thesis by blast
qed

lemma relay_found:
  assumes f: "findCurrentGameBySocket w sid = Some (r, g)"
    and run: "relay w sid n p = Inr (w', out)"
  shows "w' = w"
    and "set out = (\<lambda>c. Emit (Socket c) n p) ` (bound_connections (connected w) g - {sid})"
proof -
  from find_found(1) [OF f] have h: "has_socket sid g" .
  show "w' = w"
    using f run by (auto simp: relay_def split: option.splits if_splits)
  show "set out = (\<lambda>c. Emit (Socket c) n p) ` (bound_connections (connected w) g - {sid})"
    using f run h
    by (auto simp: relay_def slot_id_def safeEmit_Some bound_connections_def has_socket_def
             split: option.splits if_splits)
qed

text \<open>The relay throws only in a session that lacks a slot, and then no connection but the
  sender's is bound to the session.\<close>

lemma relay_throws:
  assumes f: "findCurrentGameBySocket w sid = Some (r, g)"
    and run: "relay w sid n p = Inl e"
  shows "bound_connections (connected w) g - {sid} = {}" and "student g = None \<or> mentor g = None"
proof -
  from find_found(1) [OF f] have h: "has_socket sid g" .
  show "student g = None \<or> mentor g = None"
    using f run by (auto simp: relay_def split: option.splits if_splits)
  show "bound_connections (connected w) g - {sid} = {}"
    using f run h
    by (auto simp: relay_def slot_id_def bound_connections_def has_socket_def
             split: option.splits if_splits)
qed

lemma relay_returns:
  assumes f: "findCurrentGameBySocket w sid = Some (r, g)"
    and s: "student g \<noteq> None" "mentor g \<noteq> None"
  shows "\<exists>out. relay w sid n p = Inr (w, out)"
  using f s by (auto simp: relay_def split: option.splits)

text \<open>C1 as stated fails for \<^verbatim>\<open>lastmove\<close>: sent by Alice on \<open>s1\<close>, it comes back to
  \<open>s1\<close>.\<close>

theorem lastmove_echo_counterexample:
  "attributed demo_paired ''s1'' (InGames 0) (ongoingGames demo_paired ! 0) \<and>
   student (ongoingGames demo_paired ! 0) = Some (alice ''s1'') \<and>
   mentor (ongoingGames demo_paired ! 0) = Some (bob ''s2'') \<and>
   handle demo_engine demo_paired ''s1'' (LastMove ''e2'' ''e4'') =
     Inr (demo_paired, [Emit (Socket ''s2'') ''lastmove'' (FromTo ''e2'' ''e4''),
                        Emit (Socket ''s1'') ''lastmove'' (FromTo ''e2'' ''e4'')]) \<and>
   ''s1'' \<in> recipients demo_paired (Emit (Socket ''s1'') ''lastmove'' (FromTo ''e2'' ''e4''))"
  using att_demo_paired
  by (simp add: lastmove_def findCurrentGameBySocket_def has_socket_def safeEmit_def slot_id_def
        demo_paired_def alice_def bob_def three_def)

text \<open>
  C1, as amended. Let \<open>g\<close> be the session of the sender. A handler of \<^verbatim>\<open>addgrey\<close>,
  \<^verbatim>\<open>removegrey\<close>, \<^verbatim>\<open>mousexy\<close>, \<^verbatim>\<open>piecedrop\<close>, \<^verbatim>\<open>piecedrag\<close> or
  \<^verbatim>\<open>highlight\<close> changes nothing and forwards the event to the bound connections of the
  session other than the sender's, that is to the counterpart's connection and to no one
  else; no emit reaches the sender. The handler returns when the session has its two slots.
  It throws only in a session that lacks a slot, and then there is no counterpart
  connection that the event could have been forwarded to. \<^verbatim>\<open>lastmove\<close> goes to every
  bound connection of the session, the sender's among them.
\<close>

theorem relay_counterpart_only:
  assumes "attributed w sid r g"
  shows "(\<forall>n p. relay_event ev = Some (n, p) \<longrightarrow>
            (case handle eng w sid ev of
               Inr (w', out) \<Rightarrow>
                 w' = w \<and>
                 set out = (\<lambda>c. Emit (Socket c) n p) ` (bound_connections (connected w) g - {sid}) \<and>
                 (\<forall>e \<in> set out. sid \<notin> recipients w e)
             | Inl e \<Rightarrow>
                 bound_connections (connected w) g - {sid} = {} \<and>
                 (student g = None \<or> mentor g = None)))
       \<and> (\<exists>out. handle eng w sid (LastMove from' to') = Inr (w, out) \<and>
            set out = (\<lambda>c. Emit (Socket c) ''lastmove'' (FromTo from' to')) `
                        bound_connections (connected w) g)"
proof (intro conjI allI impI)
  from assms have f: "findCurrentGameBySocket w sid = Some (r, g)"
    by (simp add: attributed_find)
  {
    fix n p
    assume a: "relay_event ev = Some (n, p)"
    then have h: "handle eng w sid ev = relay w sid n p"
      by (rule handle_relay)
    show "case handle eng w sid ev of
               Inr (w', out) \<Rightarrow>
                 w' = w \<and>
                 set out = (\<lambda>c. Emit (Socket c) n p) ` (bound_connections (connected w) g - {sid}) \<and>
                 (\<forall>e \<in> set out. sid \<notin> recipients w e)
             | Inl e \<Rightarrow>
                 bound_connections (connected w) g - {sid} = {} \<and>
                 (student g = None \<or> mentor g = None)"
    proof (cases "relay w sid n p")
      case (Inl e)
      from relay_throws [OF f Inl] h Inl show ?thesis by simp
    next
      case (Inr res)
      then obtain w' out where run: "relay w sid n p = Inr (w', out)"
        by (cases res) auto
      from relay_found [OF f run]
      have 1: "w' = w"
        and 2: "set out = (\<lambda>c. Emit (Socket c) n p) ` (bound_connections (connected w) g - {sid})"
        by simp_all
      from 2 have "\<forall>e \<in> set out. sid \<notin> recipients w e" by auto
      with 1 2 h run show ?thesis by simp
    qed
  next
    show "\<exists>out. handle eng w sid (LastMove from' to') = Inr (w, out) \<and>
            set out = (\<lambda>c. Emit (Socket c) ''lastmove'' (FromTo from' to')) `
                        bound_connections (connected w) g"
      by (rule lastmove_found [OF f])
  }
qed

theorem relay_counterpart_only_witness:
  "attributed demo_joined ''s2'' (InSessions 0) (snd (sessions demo_joined ! 0)) \<and>
   relay_event (AddGrey ''e4'') = Some (''addgrey'', To ''e4'') \<and>
   handle demo_engine demo_joined ''s2'' (AddGrey ''e4'') =
     Inr (demo_joined, [Emit (Socket ''s1'') ''addgrey'' (To ''e4'')]) \<and>
   set [Emit (Socket ''s1'') ''addgrey'' (To ''e4'')] =
     (\<lambda>c. Emit (Socket c) ''addgrey'' (To ''e4'')) ` ({''s1'', ''s2''} - {''s2''}) \<and>
   ''s2'' \<notin> recipients demo_joined (Emit (Socket ''s1'') ''addgrey'' (To ''e4'')) \<and>
   attributed demo_paired ''s1'' (InGames 0) (ongoingGames demo_paired ! 0) \<and>
   relay_event PieceDrop = Some (''piecedrop'', EmptyObj) \<and>
   handle demo_engine demo_paired ''s1'' PieceDrop =
     Inr (demo_paired, [Emit (Socket ''s2'') ''piecedrop'' EmptyObj]) \<and>
   set [Emit (Socket ''s2'') ''piecedrop'' EmptyObj] =
     (\<lambda>c. Emit (Socket c) ''piecedrop'' EmptyObj) ` ({''s1'', ''s2''} - {''s1''}) \<and>
   attributed demo_named ''s1'' (InSessions 0) (snd (sessions demo_named ! 0)) \<and>
   handle demo_engine demo_named ''s1'' (AddGrey ''e4'') = Inl TypeError \<and>
   bound_connections (connected demo_named) (snd (sessions demo_named ! 0)) - {''s1''} = {} \<and>
   (\<exists>out. handle demo_engine demo_joined ''s2'' (LastMove ''e2'' ''e4'') = Inr (demo_joined, out) \<and>
      set out = (\<lambda>c. Emit (Socket c) ''lastmove'' (FromTo ''e2'' ''e4'')) ` {''s1'', ''s2''})"
proof -
  have ev1: "relay_event (AddGrey ''e4'') = Some (''addgrey'', To ''e4'')"
    and ev2: "relay_event PieceDrop = Some (''piecedrop'', EmptyObj)"
    by simp_all
  have run1: "handle demo_engine demo_joined ''s2'' (AddGrey ''e4'') =
     Inr (demo_joined, [Emit (Socket ''s1'') ''addgrey'' (To ''e4'')])"
    by (simp add: addgrey_def relay_def findCurrentGameBySocket_def has_socket_def safeEmit_def
          slot_id_def demo_joined_def alice_def bob_def three_def)
  have run2: "handle demo_engine demo_paired ''s1'' PieceDrop =
     Inr (demo_paired, [Emit (Socket ''s2'') ''piecedrop'' EmptyObj])"
    by (simp add: piecedrop_def relay_def findCurrentGameBySocket_def has_socket_def safeEmit_def
          slot_id_def demo_paired_def alice_def bob_def three_def)
  have run3: "handle demo_engine demo_named ''s1'' (AddGrey ''e4'') = Inl TypeError"
    by (simp add: addgrey_def relay_def findCurrentGameBySocket_def has_socket_def slot_id_def
          demo_named_def alice_def three_def)
  note t1 = relay_counterpart_only [OF att_demo_joined(2), of _ demo_engine "''e2''" "''e4''"]
  note t2 = relay_counterpart_only [OF att_demo_paired, of _ demo_engine "''e2''" "''e4''"]
  note t3 = relay_counterpart_only [OF att_demo_named, of _ demo_engine "''e2''" "''e4''"]
  from t1 [of "AddGrey ''e4''", THEN conjunct1, rule_format, OF ev1]
  have a: "set [Emit (Socket ''s1'') ''addgrey'' (To ''e4'')] =
             (\<lambda>c. Emit (Socket c) ''addgrey'' (To ''e4'')) ` ({''s1'', ''s2''} - {''s2''})"
    and b: "''s2'' \<notin> recipients demo_joined (Emit (Socket ''s1'') ''addgrey'' (To ''e4''))"
    unfolding run1 bound_demo_joined by simp_all
  from t2 [of PieceDrop, THEN conjunct1, rule_format, OF ev2]
  have c: "set [Emit (Socket ''s2'') ''piecedrop'' EmptyObj] =
             (\<lambda>c. Emit (Socket c) ''piecedrop'' EmptyObj) ` ({''s1'', ''s2''} - {''s1''})"
    unfolding run2 bound_demo_paired by simp
  from t3 [of "AddGrey ''e4''", THEN conjunct1, rule_format, OF ev1]
  have d: "bound_connections (connected demo_named) (snd (sessions demo_named ! 0)) - {''s1''} = {}"
    unfolding run3 by simp
  from t1 [of "AddGrey ''e4''", THEN conjunct2]
  have e: "\<exists>out. handle demo_engine demo_joined ''s2'' (LastMove ''e2'' ''e4'') = Inr (demo_joined, out) \<and>
      set out = (\<lambda>c. Emit (Socket c) ''lastmove'' (FromTo ''e2'' ''e4'')) ` {''s1'', ''s2''}"
    unfolding bound_demo_joined .
  show ?thesis
    by (insert att_demo_joined(2) ev1 run1 a b att_demo_paired ev2 run2 c att_demo_named run3 d e,
        intro conjI) assumption+
qed

text \<open>C7 as stated fails for \<^verbatim>\<open>lastmove\<close>: Alice, alone in her game, gets her own event
  back.\<close>

theorem lastmove_alone_counterexample:
  "attributed demo_game ''s1'' (InGames 0) (ongoingGames demo_game ! 0) \<and>
   student (ongoingGames demo_game ! 0) = Some (alice ''s1'') \<and>
   mentor (ongoingGames demo_game ! 0) = Some (bob []) \<and>
   sole_participant ''s1'' (ongoingGames demo_game ! 0) \<and>
   handle demo_engine demo_game ''s1'' (LastMove ''e2'' ''e4'') =
     Inr (demo_game, [Emit (Socket ''s1'') ''lastmove'' (FromTo ''e2'' ''e4'')]) \<and>
   ''s1'' \<in> recipients demo_game (Emit (Socket ''s1'') ''lastmove'' (FromTo ''e2'' ''e4''))"
  using att_demo_game
  by (simp add: lastmove_def findCurrentGameBySocket_def has_socket_def safeEmit_def slot_id_def
        sole_participant_def bound_to_def demo_game_def alice_def bob_def three_def)

text \<open>In a session that \<^verbatim>\<open>createSession\<close> made, with its one slot, the six handlers
  throw instead: the first condition reads \<^verbatim>\<open>currentGame.mentor.id\<close>, and there is no
  mentor.\<close>

lemma addgrey_single_slot:
  "attributed demo_named ''s1'' (InSessions 0) (snd (sessions demo_named ! 0)) \<and>
   mentor (snd (sessions demo_named ! 0)) = None \<and>
   handle demo_engine demo_named ''s1'' (AddGrey ''e4'') = Inl TypeError"
  using att_demo_named
  by (simp add: addgrey_def relay_def findCurrentGameBySocket_def has_socket_def slot_id_def
        demo_named_def alice_def three_def)

text \<open>
  C7, as amended. Let the sender be the only participant of its session with a bound
  connection. When the session has both slots, the counterpart's id being unset, the
  handlers of \<^verbatim>\<open>addgrey\<close>, \<^verbatim>\<open>removegrey\<close>, \<^verbatim>\<open>mousexy\<close>, \<^verbatim>\<open>piecedrop\<close>,
  \<^verbatim>\<open>piecedrag\<close> and \<^verbatim>\<open>highlight\<close> deliver nothing, raise no error and change
  nothing; when it lacks a slot, they throw, having delivered and changed nothing.
  \<^verbatim>\<open>lastmove\<close> raises no error and changes nothing, whether the counterpart's slot is
  there or not, but it is delivered to the sender's own connection.
\<close>

theorem sole_participant_relay:
  assumes "attributed w sid r g" and "sole_participant sid g"
  shows "(\<forall>n p. relay_event ev = Some (n, p) \<longrightarrow>
            handle eng w sid ev =
              (if student g \<noteq> None \<and> mentor g \<noteq> None then Inr (w, []) else Inl TypeError))
       \<and> (\<exists>out. handle eng w sid (LastMove from' to') = Inr (w, out) \<and>
            set out = (if live (connected w) sid
                       then {Emit (Socket sid) ''lastmove'' (FromTo from' to')} else {}))"
proof (intro conjI allI impI)
  from assms(1) have f: "findCurrentGameBySocket w sid = Some (r, g)"
    by (simp add: attributed_find)
  {
    fix n p
    assume a: "relay_event ev = Some (n, p)"
    have "relay w sid n p =
            (if student g \<noteq> None \<and> mentor g \<noteq> None then Inr (w, []) else Inl TypeError)"
      using f assms(2)
      by (auto simp: relay_def sole_participant_def bound_to_def slot_id_def safeEmit_Some live_def
               split: option.splits)
    with a show "handle eng w sid ev =
              (if student g \<noteq> None \<and> mentor g \<noteq> None then Inr (w, []) else Inl TypeError)"
      using handle_relay [of ev n p eng w sid] by simp
  next
    have "bound_connections (connected w) g = (if live (connected w) sid then {sid} else {})"
      using assms(2)
      by (auto simp: sole_participant_def bound_connections_def bound_to_def slot_id_def live_def
               split: option.splits)
    then show "\<exists>out. handle eng w sid (LastMove from' to') = Inr (w, out) \<and>
            set out = (if live (connected w) sid
                       then {Emit (Socket sid) ''lastmove'' (FromTo from' to')} else {})"
      using lastmove_found [OF f, of eng from' to'] by (auto split: if_splits)
  }
qed

theorem sole_participant_relay_witness:
  "attributed demo_game ''s1'' (InGames 0) (ongoingGames demo_game ! 0) \<and>
   sole_participant ''s1'' (ongoingGames demo_game ! 0) \<and>
   relay_event (MouseXY ''10'' ''20'') = Some (''mousexy'', XY ''10'' ''20'') \<and>
   handle demo_engine demo_game ''s1'' (MouseXY ''10'' ''20'') = Inr (demo_game, []) \<and>
   attributed demo_named ''s1'' (InSessions 0) (snd (sessions demo_named ! 0)) \<and>
   sole_participant ''s1'' (snd (sessions demo_named ! 0)) \<and>
   handle demo_engine demo_named ''s1'' (MouseXY ''10'' ''20'') = Inl TypeError \<and>
   live (connected demo_named) ''s1'' \<and>
   (\<exists>out. handle demo_engine demo_named ''s1'' (LastMove ''e2'' ''e4'') = Inr (demo_named, out) \<and>
      set out = {Emit (Socket ''s1'') ''lastmove'' (FromTo ''e2'' ''e4'')})"
proof -
  have sole1: "sole_participant ''s1'' (ongoingGames demo_game ! 0)"
    and sole2: "sole_participant ''s1'' (snd (sessions demo_named ! 0))"
    by (simp_all add: sole_participant_def bound_to_def demo_defs)
  have ev: "relay_event (MouseXY ''10'' ''20'') = Some (''mousexy'', XY ''10'' ''20'')"
    by simp
  have l: "live (connected demo_named) ''s1''"
    by (simp add: live_def demo_defs)
  note t1 = sole_participant_relay [OF att_demo_game sole1, of _ demo_engine "''e2''" "''e4''"]
  note t2 = sole_participant_relay [OF att_demo_named sole2, of _ demo_engine "''e2''" "''e4''"]
  from t1 [of "MouseXY ''10'' ''20''", THEN conjunct1, rule_format, OF ev]
  have a: "handle demo_engine demo_game ''s1'' (MouseXY ''10'' ''20'') = Inr (demo_game, [])"
    by (simp add: demo_defs)
  from t2 [of "MouseXY ''10'' ''20''", THEN conjunct1, rule_format, OF ev]
  have b: "handle demo_engine demo_named ''s1'' (MouseXY ''10'' ''20'') = Inl TypeError"
    by (simp add: demo_defs)
  from t2 [of "MouseXY ''10'' ''20''", THEN conjunct2] l
  have c: "\<exists>out. handle demo_engine demo_named ''s1'' (LastMove ''e2'' ''e4'') = Inr (demo_named, out) \<and>
      set out = {Emit (Socket ''s1'') ''lastmove'' (FromTo ''e2'' ''e4'')}"
    by simp
  show ?thesis
    by (insert att_demo_game sole1 ev a att_demo_named sole2 b l c, intro conjI) assumption+
qed

subsection \<open>What one event does to the stores\<close>

lemma subseq_remove_nth: "subseq (take k gs @ drop (Suc k) gs) gs"
proof -
  have "suffix (drop 1 (drop k gs)) (drop k gs)"
    by (rule suffix_drop)
  then have "subseq (drop (Suc k) gs) (drop k gs)"
    by (auto intro: suffix_imp_subseq)
  then have "subseq (take k gs @ drop (Suc k) gs) (take k gs @ drop k gs)"
    by (simp only: subseq_append')
  then show ?thesis by simp
qed

lemma endgame_loop_subseq:
  "endgame_loop conn st mn k gs = Inr (gs', out) \<Longrightarrow> subseq gs' gs"
proof (induction conn st mn k gs arbitrary: gs' out rule: endgame_loop.induct)
  case (1 conn st mn k gs)
  show ?case
  proof (cases "k < length gs")
    case False
    with "1.prems" show ?thesis by (subst (asm) endgame_loop.simps) simp
  next
    case True
    note k = this
    from "1.prems" k obtain s where s: "student (gs ! k) = Some s"
      by (subst (asm) endgame_loop.simps) (auto simp: Let_def split: option.splits)
    show ?thesis
    proof (cases "username s = st")
      case False
      with "1.prems" k s have "endgame_loop conn st mn (Suc k) gs = Inr (gs', out)"
        by (subst (asm) endgame_loop.simps) (simp add: Let_def)
      from "1.IH"(3) [OF k refl s False this] show ?thesis .
    next
      case True
      note st = this
      from "1.prems" k s st obtain m where m: "mentor (gs ! k) = Some m"
        by (subst (asm) endgame_loop.simps) (auto simp: Let_def split: option.splits)
      show ?thesis
      proof (cases "username m = mn")
        case False
        with "1.prems" k s st m have "endgame_loop conn st mn (Suc k) gs = Inr (gs', out)"
          by (subst (asm) endgame_loop.simps) (simp add: Let_def)
        from "1.IH"(2) [OF k refl s st m False this] show ?thesis .
      next
        case True
        with "1.prems" k s st m obtain out' where
          "endgame_loop conn st mn (Suc k) (take k gs @ drop (Suc k) gs) = Inr (gs', out')"
          by (subst (asm) endgame_loop.simps) (auto simp: Let_def split: sum.splits)
        from "1.IH"(1) [OF k refl s st m True this]
        have "subseq gs' (take k gs @ drop (Suc k) gs)" .
        then show ?thesis
          using subseq_remove_nth subseq_order.trans by blast
      qed
    qed
  qed
qed

lemma slot_evolved_refl: "slot_evolved c s s"
  by (simp add: slot_evolved_def split: option.splits)

lemma game_evolved_refl: "game_evolved g g"
  by (simp add: game_evolved_def slot_evolved_refl)

lemma game_evolved_board: "game_evolved g (g\<lparr>boardState := Board p\<rparr>)"
  by (simp add: game_evolved_def slot_evolved_refl is_board_def)

lemma games_step_refl: "games_step gs gs"
  by (simp add: games_step_def)

lemma games_step_update:
  assumes "i < length gs" "game_evolved (gs ! i) g"
  shows "games_step gs (gs[i := g])"
proof -
  have "list_all2 game_evolved (gs[i := gs ! i]) (gs[i := g])"
    by (rule list_all2_update_cong) (simp_all add: list_all2_refl game_evolved_refl assms)
  then show ?thesis by (simp add: games_step_def)
qed

lemma sessions_evolved_refl: "sessions_evolved ss ss"
  by (simp add: sessions_evolved_def list_all2_refl game_evolved_refl)

lemma sessions_step_refl: "sessions_step ss ss"
  by (simp add: sessions_step_def sessions_evolved_refl)

lemma sessions_evolved_update:
  assumes "i < length ss" "game_evolved (snd (ss ! i)) s"
  shows "sessions_evolved ss (ss[i := (fst (ss ! i), s)])"
proof -
  have "list_all2 (\<lambda>kv kv'. fst kv' = fst kv \<and> game_evolved (snd kv) (snd kv'))
          (ss[i := ss ! i]) (ss[i := (fst (ss ! i), s)])"
    by (rule list_all2_update_cong) (simp_all add: list_all2_refl game_evolved_refl assms)
  then show ?thesis by (simp add: sessions_evolved_def)
qed

text \<open>The change of a handler that writes the board of the session it found.\<close>

lemma put_step:
  assumes "findCurrentGameBySocket w sid = Some (r, g)" "game_evolved g g'"
  shows "games_step (ongoingGames w) (ongoingGames (put w r g'))"
    and "sessions_evolved (sessions w) (sessions (put w r g'))"
  using find_found(2) [OF assms(1)] assms(2)
  by (auto simp: games_step_refl sessions_evolved_refl intro: games_step_update sessions_evolved_update)

lemma find_ongoing_Some:
  "find_ongoing st mn gs = Inr (Some i) \<Longrightarrow>
     i < length gs \<and> game_matches st mn (gs ! i) = Inr True \<and>
     (\<forall>j < i. game_matches st mn (gs ! j) = Inr False)"
proof (induction gs arbitrary: i)
  case Nil
  then show ?case by simp
next
  case (Cons g gs)
  show ?case
  proof (cases "game_matches st mn g = Inr True")
    case True
    with Cons.prems show ?thesis by simp
  next
    case False
    with Cons.prems have f: "game_matches st mn g = Inr False"
      by (auto split: sum.splits bool.splits)
    with Cons.prems obtain k where k: "find_ongoing st mn gs = Inr (Some k)" "i = Suc k"
      by (auto split: sum.splits)
    from Cons.IH [OF k(1)] f k(2) show ?thesis
      by (auto simp: nth_Cons split: nat.splits)
  qed
qed

lemma find_ongoing_None:
  "find_ongoing st mn gs = Inr None \<Longrightarrow> \<forall>g \<in> set gs. game_matches st mn g = Inr False"
  by (induction gs) (auto split: sum.splits bool.splits)

lemma game_matches_wf:
  "student g \<noteq> None \<Longrightarrow> mentor g \<noteq> None \<Longrightarrow>
     game_matches st mn g =
       Inr (username (the (student g)) = st \<or> username (the (mentor g)) = mn)"
  by (auto simp: game_matches_def)

lemma find_ongoing_wf:
  "\<forall>g \<in> set gs. student g \<noteq> None \<and> mentor g \<noteq> None \<Longrightarrow>
     find_ongoing st mn gs =
       Inr (find_idx (\<lambda>g. username (the (student g)) = st \<or> username (the (mentor g)) = mn) gs)"
  by (induction gs) (auto simp: game_matches_wf)

lemma newgame_create_step:
  assumes "newgame_create eng w sid st mn role = (w', out)"
  shows "sessions w' = sessions w \<and> connected w' = connected w \<and> rooms w' = rooms w \<and>
         (\<exists>g. ongoingGames w' = ongoingGames w @ [g] \<and> created role g)"
  using assms
  by (auto simp: newgame_create_def Let_def created_def game_colors_def creator_colors_def nth_js_def
           is_board_def)

lemma newgame_existing_step:
  assumes "newgame_existing eng w sid role i = Inr (w', out)" "i < length (ongoingGames w)"
  shows "sessions w' = sessions w \<and> connected w' = connected w \<and> rooms w' = rooms w \<and>
         games_step (ongoingGames w) (ongoingGames w')"
  using assms
  by (auto simp: newgame_existing_def Let_def games_step_refl game_evolved_def slot_evolved_def
           intro!: games_step_update split: if_splits option.splits sum.splits)

lemma set_insert_index: "set (insert_index k v ss) = insert (k, v) (set ss)"
  by (induction ss) auto

lemma set_register: "set (register k v ss) = insert (k, v) (set ss)"
  by (simp add: register_def set_insert_index)

lemma createSession_step:
  assumes "createSession eng w sid sessionId uname role = Inr (w', out)"
  shows "ongoingGames w' = ongoingGames w \<and> connected w' = connected w \<and>
         (sessions w' = sessions w \<or>
          (\<exists>s. sessionId \<notin> fst ` set (sessions w) \<and>
             sessions w' = register sessionId s (sessions w) \<and> opened role s))"
proof (cases "lookup_session (sessions w) sessionId = Absent")
  case False
  with assms have "w' = w"
    by (cases "lookup_session (sessions w) sessionId") (auto simp: createSession_def)
  then show ?thesis by simp
next
  case True
  let ?s = "set_role \<lparr>student = None, mentor = None, boardState = Board (chess_new eng),
                       pastStates = Past [], others = []\<rparr>
              role \<lparr>username = uname, id' = sid, color = Str (role_color role)\<rparr>"
  from True assms have w': "w' = join sessionId sid (w\<lparr>sessions := register sessionId ?s (sessions w)\<rparr>)"
    by (auto simp: createSession_def Let_def)
  have "opened role ?s"
    by (auto simp: opened_def set_role_def slot_evolved_def role_color_def)
  moreover from True have "sessionId \<notin> fst ` set (sessions w)"
    by (simp add: lookup_session_Absent)
  ultimately show ?thesis using w' by (auto simp: join_def)
qed

lemma joinSession_step:
  assumes "joinSession eng w sid sessionId uname role = Inr (w', out)"
  shows "ongoingGames w' = ongoingGames w \<and> connected w' = connected w \<and>
         sessions_evolved (sessions w) (sessions w')"
proof (cases "lookup_session (sessions w) sessionId")
  case Absent
  with assms show ?thesis by (auto simp: joinSession_def sessions_evolved_refl)
next
  case Inherited
  with assms show ?thesis
    by (auto simp: joinSession_def join_builtin_def join_def sessions_evolved_refl Let_def
             split: if_splits)
next
  case (Own i)
  then have "session_index (sessions w) sessionId = Some i"
    by (simp add: lookup_session_index)
  from find_idx_Some [OF this [unfolded session_index_def]]
  have i: "i < length (sessions w)" by simp
  let ?s = "snd (sessions w ! i)"
  show ?thesis
  proof (cases "has_role ?s role")
    case True
    with Own assms show ?thesis
      by (auto simp: joinSession_def sessions_evolved_refl)
  next
    case False
    let ?s' = "set_role ?s role \<lparr>username = uname, id' = sid, color = Str (role_color role)\<rparr>"
    from False Own assms
    have w': "w' = join sessionId sid (put w (InSessions i) ?s')"
      by (auto simp: joinSession_def Let_def split: sum.splits)
    from False have "game_evolved ?s ?s'"
      by (auto simp: game_evolved_def slot_evolved_def set_role_def has_role_def role_color_def
               split: option.splits if_splits)
    from sessions_evolved_update [OF i this] w' show ?thesis by (simp add: join_def)
  qed
qed

lemma board_handlers_step:
  assumes "move eng w sid from' to' = Inr (w', out) \<or> undo eng w sid = Inr (w', out) \<or>
           setstate eng w sid state = Inr (w', out)"
  shows "connected w' = connected w \<and> games_step (ongoingGames w) (ongoingGames w') \<and>
         sessions_evolved (sessions w) (sessions w')"
proof (cases "findCurrentGameBySocket w sid")
  case None
  with assms show ?thesis
    by (auto simp: move_def undo_def setstate_def games_step_refl sessions_evolved_refl)
next
  case (Some rg)
  then obtain r g where f: "findCurrentGameBySocket w sid = Some (r, g)"
    by (cases rg) auto
  from assms f have "w' = w \<or> (\<exists>p. w' = put w r (g\<lparr>boardState := Board p\<rparr>))"
    by (auto simp: move_def undo_def setstate_def Let_def split: option.splits board.splits)
  then show ?thesis
  proof
    assume "w' = w"
    then show ?thesis by (simp add: games_step_refl sessions_evolved_refl)
  next
    assume "\<exists>p. w' = put w r (g\<lparr>boardState := Board p\<rparr>)"
    then obtain p where p: "w' = put w r (g\<lparr>boardState := Board p\<rparr>)" ..
    from put_step [OF f game_evolved_board, of p] p show ?thesis
      by (cases r) auto
  qed
qed

lemma relay_same: "relay w sid n p = Inr (w', out) \<Longrightarrow> w' = w"
  by (auto simp: relay_def split: option.splits if_splits)

text \<open>Every event: the games evolve or go, or \<^verbatim>\<open>newgame\<close> adds one; the sessions
  evolve, or \<^verbatim>\<open>createSession\<close> adds one.\<close>

lemma handle_step:
  assumes "handle eng w sid ev = Inr (w', out)"
  shows "(games_step (ongoingGames w) (ongoingGames w') \<or>
          (\<exists>st mn role g. ev = NewGame st mn role \<and>
             find_ongoing st mn (ongoingGames w) = Inr None \<and>
             ongoingGames w' = ongoingGames w @ [g] \<and> created role g)) \<and>
         (sessions_evolved (sessions w) (sessions w') \<or>
          (\<exists>sessionId uname role s. ev = CreateSession sessionId uname role \<and>
             sessionId \<notin> fst ` set (sessions w) \<and>
             sessions w' = register sessionId s (sessions w) \<and> opened role s))"
proof (cases ev)
  case (NewGame st mn role)
  with assms have run: "newgame eng w sid st mn role = Inr (w', out)" by simp
  show ?thesis
  proof (cases "find_ongoing st mn (ongoingGames w)")
    case (Inl e)
    with run show ?thesis by (simp add: newgame_def)
  next
    case (Inr r)
    show ?thesis
    proof (cases r)
      case None
      with Inr run have "newgame_create eng w sid st mn role = (w', out)"
        by (simp add: newgame_def)
      from newgame_create_step [OF this] NewGame Inr None show ?thesis
        by (auto simp: sessions_evolved_refl)
    next
      case (Some i)
      with Inr run have "newgame_existing eng w sid role i = Inr (w', out)"
        by (simp add: newgame_def)
      moreover from find_ongoing_Some Inr Some have "i < length (ongoingGames w)"
        by blast
      ultimately show ?thesis
        using newgame_existing_step by (fastforce simp: sessions_evolved_refl)
    qed
  qed
next
  case (CreateSession sessionId uname role)
  with assms createSession_step [of eng w sid sessionId uname role w' out] show ?thesis
    by (auto simp: games_step_refl sessions_evolved_refl)
next
  case (JoinSession sessionId uname role)
  with assms joinSession_step [of eng w sid sessionId uname role w' out] show ?thesis
    by (simp add: games_step_refl)
next
  case (Move from' to')
  with assms board_handlers_step [of eng w sid from' to' w' out] show ?thesis
    by simp
next
  case (EndGame st mn)
  with assms obtain gs where loop: "endgame_loop (connected w) st mn 0 (ongoingGames w) = Inr (gs, out)"
    and w': "w' = w\<lparr>ongoingGames := gs\<rparr>"
    by (auto simp: endgame_def split: sum.splits)
  from endgame_loop_subseq [OF loop] have "subseq gs (ongoingGames w)" .
  with w' show ?thesis
    by (simp add: games_step_def sessions_evolved_refl)
next
  case Undo
  with assms board_handlers_step [of eng w sid _ _ w' out] show ?thesis
    by simp
next
  case (SetState state)
  with assms board_handlers_step [of eng w sid _ _ w' out state] show ?thesis
    by simp
next
  case (LastMove from' to')
  with assms have "w' = w"
    by (auto simp: lastmove_def split: option.splits)
  then show ?thesis by (simp add: games_step_refl sessions_evolved_refl)
next
  case (AddGrey to')
  with assms have "\<exists>n p. relay w sid n p = Inr (w', out)" by (auto simp: addgrey_def)
  then have "w' = w" by (auto dest: relay_same)
  then show ?thesis by (simp add: games_step_refl sessions_evolved_refl)
next
  case RemoveGrey
  with assms have "\<exists>n p. relay w sid n p = Inr (w', out)" by (auto simp: removegrey_def)
  then have "w' = w" by (auto dest: relay_same)
  then show ?thesis by (simp add: games_step_refl sessions_evolved_refl)
next
  case (MouseXY x y)
  with assms have "\<exists>n p. relay w sid n p = Inr (w', out)" by (auto simp: mousexy_def)
  then have "w' = w" by (auto dest: relay_same)
  then show ?thesis by (simp add: games_step_refl sessions_evolved_refl)
next
  case PieceDrop
  with assms have "\<exists>n p. relay w sid n p = Inr (w', out)" by (auto simp: piecedrop_def)
  then have "w' = w" by (auto dest: relay_same)
  then show ?thesis by (simp add: games_step_refl sessions_evolved_refl)
next
  case (PieceDrag piece)
  with assms have "\<exists>n p. relay w sid n p = Inr (w', out)" by (auto simp: piecedrag_def)
  then have "w' = w" by (auto dest: relay_same)
  then show ?thesis by (simp add: games_step_refl sessions_evolved_refl)
next
  case (Highlight from' to')
  with assms have "\<exists>n p. relay w sid n p = Inr (w', out)" by (auto simp: highlight_def)
  then have "w' = w" by (auto dest: relay_same)
  then show ?thesis by (simp add: games_step_refl sessions_evolved_refl)
qed

lemma handle_sessions_step:
  assumes "handle eng w sid ev = Inr (w', out)"
  shows "sessions_step (sessions w) (sessions w')"
  using handle_step [OF assms] unfolding sessions_step_def by blast

lemma handle_games_step:
  assumes "handle eng w sid ev = Inr (w', out)"
  shows "games_step (ongoingGames w) (ongoingGames w') \<or>
         (\<exists>st mn role g. ev = NewGame st mn role \<and>
            ongoingGames w' = ongoingGames w @ [g] \<and> created role g)"
  using handle_step [OF assms] by blast

subsection \<open>Invariants of the stores\<close>

lemma games_step_pres:
  assumes step: "games_step gs gs'"
    and Q: "\<forall>g \<in> set gs. Q g"
    and ev: "\<And>g g'. Q g \<Longrightarrow> game_evolved g g' \<Longrightarrow> Q g'"
  shows "\<forall>g \<in> set gs'. Q g"
proof
  fix g'
  assume g': "g' \<in> set gs'"
  from step show "Q g'"
    unfolding games_step_def
  proof
    assume l: "list_all2 game_evolved gs gs'"
    from g' obtain i where i: "i < length gs'" "gs' ! i = g'"
      by (auto simp: in_set_conv_nth)
    with l have "i < length gs" "game_evolved (gs ! i) g'"
      by (auto simp: list_all2_conv_all_nth)
    with Q ev show ?thesis by (metis nth_mem)
  next
    assume "subseq gs' gs"
    with g' have "g' \<in> set gs"
      by (auto elim: list_emb_set)
    with Q show ?thesis by simp
  qed
qed

lemma sessions_evolved_pres:
  assumes step: "sessions_evolved ss ss'"
    and Q: "\<forall>kv \<in> set ss. Q (snd kv)"
    and ev: "\<And>s s'. Q s \<Longrightarrow> game_evolved s s' \<Longrightarrow> Q s'"
  shows "\<forall>kv \<in> set ss'. Q (snd kv)"
proof
  fix kv'
  assume kv': "kv' \<in> set ss'"
  from step have l: "list_all2 (\<lambda>kv kv'. fst kv' = fst kv \<and> game_evolved (snd kv) (snd kv')) ss ss'"
    by (simp add: sessions_evolved_def)
  from kv' obtain i where i: "i < length ss'" "ss' ! i = kv'"
    by (auto simp: in_set_conv_nth)
  with l have "i < length ss" "game_evolved (snd (ss ! i)) (snd kv')"
    by (auto simp: list_all2_conv_all_nth)
  with Q ev show "Q (snd kv')" by (metis nth_mem)
qed

lemma sessions_step_pres:
  assumes step: "sessions_step ss ss'"
    and Q: "\<forall>kv \<in> set ss. Q (snd kv)"
    and ev: "\<And>s s'. Q s \<Longrightarrow> game_evolved s s' \<Longrightarrow> Q s'"
    and op: "\<And>role s. opened role s \<Longrightarrow> Q s"
  shows "\<forall>kv \<in> set ss'. Q (snd kv)"
  using step unfolding sessions_step_def
proof
  assume "sessions_evolved ss ss'"
  from sessions_evolved_pres [OF this Q ev] show ?thesis by simp
next
  assume "\<exists>k role s. k \<notin> fst ` set ss \<and> ss' = register k s ss \<and> opened role s"
  then obtain k role s where r: "ss' = register k s ss" "opened role s" by blast
  show ?thesis
  proof
    fix kv'
    assume "kv' \<in> set ss'"
    with r have "kv' = (k, s) \<or> kv' \<in> set ss"
      by (simp add: set_register)
    with Q op [OF r(2)] show "Q (snd kv')" by auto
  qed
qed

lemma sessions_step_keeps:
  assumes step: "sessions_step ss ss'" and m: "(k, s) \<in> set ss"
  shows "\<exists>s'. (k, s') \<in> set ss' \<and> game_evolved s s'"
  using step unfolding sessions_step_def
proof
  assume "sessions_evolved ss ss'"
  then have l: "list_all2 (\<lambda>kv kv'. fst kv' = fst kv \<and> game_evolved (snd kv) (snd kv')) ss ss'"
    by (simp add: sessions_evolved_def)
  from m obtain i where i: "i < length ss" "ss ! i = (k, s)"
    by (auto simp: in_set_conv_nth)
  with l have "i < length ss'" "fst (ss' ! i) = k" "game_evolved s (snd (ss' ! i))"
    by (auto simp: list_all2_conv_all_nth)
  then have "(k, snd (ss' ! i)) \<in> set ss'"
    by (metis nth_mem prod.collapse)
  with \<open>game_evolved s (snd (ss' ! i))\<close> show ?thesis by blast
next
  assume "\<exists>k role s. k \<notin> fst ` set ss \<and> ss' = register k s ss \<and> opened role s"
  with m have "(k, s) \<in> set ss'"
    by (auto simp: set_register)
  then show ?thesis using game_evolved_refl by blast
qed

lemma evolved_slots:
  "game_evolved g g' \<Longrightarrow> student g \<noteq> None \<Longrightarrow> mentor g \<noteq> None \<Longrightarrow>
     student g' \<noteq> None \<and> mentor g' \<noteq> None \<and> game_colors g' = game_colors g"
  by (auto simp: game_evolved_def slot_evolved_def game_colors_def)

lemma evolved_wf:
  "student g \<noteq> None \<and> mentor g \<noteq> None \<and> is_board (boardState g) \<Longrightarrow> game_evolved g g' \<Longrightarrow>
     student g' \<noteq> None \<and> mentor g' \<noteq> None \<and> is_board (boardState g')"
  by (auto simp: game_evolved_def slot_evolved_def)

lemma handle_wf:
  assumes "games_wf w" "handle eng w sid ev = Inr (w', out)"
  shows "games_wf w'"
proof -
  from handle_games_step [OF assms(2)]
  have "games_step (ongoingGames w) (ongoingGames w') \<or>
        (\<exists>role g. ongoingGames w' = ongoingGames w @ [g] \<and> created role g)"
    by blast
  then show ?thesis
  proof
    assume "games_step (ongoingGames w) (ongoingGames w')"
    from games_step_pres [OF this,
        of "\<lambda>g. student g \<noteq> None \<and> mentor g \<noteq> None \<and> is_board (boardState g)"] assms(1)
    show ?thesis
      unfolding games_wf_def using evolved_wf by blast
  next
    assume "\<exists>role g. ongoingGames w' = ongoingGames w @ [g] \<and> created role g"
    with assms(1) show ?thesis
      by (auto simp: games_wf_def created_def)
  qed
qed

lemma reachable_wf: "reachable eng w \<Longrightarrow> games_wf w"
proof (induction rule: reachable.induct)
  case (start conn)
  show ?case by (simp add: games_wf_def init_def)
next
  case (event w sid ev w' out)
  then show ?case using handle_wf by blast
next
  case (connection w conn)
  then show ?case by (simp add: games_wf_def reconnect_def)
qed


subsection \<open>The concrete states are states of a run\<close>

lemma run_demo_game:
  "handle demo_engine (init three) ''s1'' (NewGame ''Alice'' ''Bob'' ''student'') =
     Inr (demo_game, [Emit Everyone ''boardstate'' (BoardStateMsg [] (Str ''black''))])"
  by (simp add: newgame_def newgame_create_def init_def nth_js_def demo_defs)

lemma run_demo_paired:
  "handle demo_engine demo_game ''s2'' (NewGame ''Alice'' ''Bob'' ''mentor'') =
     Inr (demo_paired, [Emit (Room ''s2'') ''boardstate'' (BoardStateMsg [] (Str ''white''))])"
  by (simp add: newgame_def newgame_existing_def game_matches_def fen_of_def demo_defs)

lemma run_demo_moved:
  "handle demo_engine demo_paired ''s1'' (Move ''e2'' ''e4'') =
     Inr (demo_moved, [Emit (Socket ''s2'') ''boardstate'' (BoardStateMsg ''e2e4'' Undefined),
                       Emit (Socket ''s1'') ''boardstate'' (BoardStateMsg ''e2e4'' Undefined)])"
  by (simp add: move_def findCurrentGameBySocket_def has_socket_def broadcast_board_def
        safeEmit_def slot_id_def demo_defs)

lemma run_demo_two:
  "handle demo_engine (init three) ''s3'' (NewGame ''Carol'' ''Dave'' ''student'') =
     Inr (demo_two\<lparr>ongoingGames := [ongoingGames demo_two ! 0]\<rparr>,
          [Emit Everyone ''boardstate'' (BoardStateMsg [] (Str ''black''))])"
  "handle demo_engine (demo_two\<lparr>ongoingGames := [ongoingGames demo_two ! 0]\<rparr>) ''s1''
       (NewGame ''Alice'' ''Bob'' ''student'') =
     Inr (demo_two, [Emit Everyone ''boardstate'' (BoardStateMsg [] (Str ''black''))])"
  by (simp_all add: newgame_def newgame_create_def game_matches_def init_def nth_js_def demo_defs)

lemma run_demo_named:
  "handle demo_engine (init three) ''s1'' (CreateSession ''abc'' ''Alice'' ''student'') =
     Inr (demo_named, [Emit (Socket ''s1'') ''sessionCreated'' (BoardStateMsg [] (Str ''black''))])"
  by (simp add: createSession_def lookup_session_def session_index_def inherited_names_def
        set_role_def register_def is_index_def join_def role_color_def init_def Let_def demo_defs)

lemma run_demo_joined:
  "handle demo_engine demo_named ''s2'' (JoinSession ''abc'' ''Bob'' ''mentor'') =
     Inr (demo_joined, [Emit (Socket ''s2'') ''sessionJoined'' (BoardStateMsg [] (Str ''white'')),
                        Emit (Socket ''s2'') ''boardstate'' (BoardStateMsg [] (Str ''white'')),
                        Emit (Socket ''s1'') ''boardstate'' (BoardStateMsg [] (Str ''black''))])"
  by (simp add: joinSession_def lookup_session_def session_index_def has_role_def set_role_def
        join_def fen_of_def notify_both_def safeEmit_def role_color_def Let_def demo_defs)

lemma run_demo_room:
  "handle demo_engine demo_game ''s3'' (CreateSession ''s2'' ''Carol'' ''student'') =
     Inr (demo_room, [Emit (Socket ''s3'') ''sessionCreated'' (BoardStateMsg [] (Str ''black''))])"
  by (simp add: createSession_def lookup_session_def session_index_def inherited_names_def
        set_role_def register_def is_index_def join_def role_color_def Let_def demo_defs)

lemma run_demo_clobbered:
  "handle demo_engine (init three) ''s1'' (CreateSession ''xyz'' ''Alice'' ''boardState'') =
     Inr (demo_clobbered, [Emit (Socket ''s1'') ''sessionCreated'' (BoardStateMsg [] (Str ''black''))])"
  by (simp add: createSession_def lookup_session_def session_index_def inherited_names_def
        set_role_def register_def is_index_def join_def role_color_def init_def Let_def demo_defs)

lemma reachable_demo:
  "reachable demo_engine demo_game" "reachable demo_engine demo_paired"
  "reachable demo_engine demo_moved" "reachable demo_engine demo_named"
  "reachable demo_engine demo_joined" "reachable demo_engine demo_two"
  "reachable demo_engine demo_room" "reachable demo_engine demo_clobbered"
proof -
  have s: "reachable demo_engine (init three)"
    by (rule reachable.start)
  from reachable.event [OF s run_demo_game] show g: "reachable demo_engine demo_game" .
  from reachable.event [OF g run_demo_paired] show p: "reachable demo_engine demo_paired" .
  from reachable.event [OF p run_demo_moved] show "reachable demo_engine demo_moved" .
  from reachable.event [OF s run_demo_named] show n: "reachable demo_engine demo_named" .
  from reachable.event [OF n run_demo_joined] show "reachable demo_engine demo_joined" .
  from reachable.event [OF reachable.event [OF s run_demo_two(1)] run_demo_two(2)]
  show "reachable demo_engine demo_two" .
  from reachable.event [OF g run_demo_room] show "reachable demo_engine demo_room" .
  from reachable.event [OF s run_demo_clobbered] show "reachable demo_engine demo_clobbered" .
qed

subsection \<open>No handler depends on the past states\<close>

lemma wipe_sel [simp]:
  "ongoingGames (wipe w) = map wipe_game (ongoingGames w)"
  "sessions (wipe w) = map (apsnd wipe_game) (sessions w)"
  "connected (wipe w) = connected w" "rooms (wipe w) = rooms w"
  "builtin_slots (wipe w) = builtin_slots w"
  by (simp_all add: wipe_def)

lemma wipe_game_sel [simp]:
  "student (wipe_game g) = student g" "mentor (wipe_game g) = mentor g"
  "boardState (wipe_game g) = boardState g" "others (wipe_game g) = others g"
  "pastStates (wipe_game g) = Past []"
  by (simp_all add: wipe_game_def)

lemma wipe_game_idem [simp]: "wipe_game (wipe_game g) = wipe_game g"
  by (simp add: wipe_game_def)

lemma wipe_idem [simp]: "wipe (wipe w) = wipe w"
  by (simp add: wipe_def comp_def apsnd_def map_prod_def split_def)

lemma upto_past_idem [simp]: "upto_past (upto_past res) = upto_past res"
  by (auto simp: upto_past_def split: sum.splits)


lemma wipe_has_socket [simp]: "has_socket sid (wipe_game g) = has_socket sid g"
  by (simp add: has_socket_def)

lemma find_idx_map: "find_idx P (map f xs) = find_idx (\<lambda>x. P (f x)) xs"
  by (induction xs) auto



lemma wipe_broadcast [simp]:
  "broadcast_board eng conn (wipe_game g) p = broadcast_board eng conn g p"
  by (simp add: broadcast_board_def)






lemma wipe_game_matches [simp]: "game_matches st mn (wipe_game g) = game_matches st mn g"
  by (simp add: game_matches_def split: option.splits)

lemma wipe_find_ongoing [simp]:
  "find_ongoing st mn (map wipe_game gs) = find_ongoing st mn gs"
  by (induction gs) (auto split: sum.splits bool.splits)



lemma wipe_session_index [simp]:
  "session_index (map (apsnd f) ss) k = session_index ss k"
  by (simp add: session_index_def find_idx_map)

lemma wipe_lookup_session [simp]:
  "lookup_session (map (apsnd f) ss) k = lookup_session ss k"
  by (simp add: lookup_session_def)



lemma wipe_has_role [simp]: "has_role (wipe_game s) role = has_role s role"
  by (simp add: has_role_def)


lemma wipe_set_role_any: "wipe_game (set_role (wipe_game s) role x) = wipe_game (set_role s role x)"
  by (simp add: set_role_def wipe_game_def)

lemma wipe_notify_both [simp]:
  "notify_both conn (wipe_game s) fen = notify_both conn s fen"
  by (simp add: notify_both_def)






subsection \<open>The past states\<close>




subsection \<open>The colors\<close>

lemma evolved_session_colors:
  "session_colors_ok s \<Longrightarrow> game_evolved s s' \<Longrightarrow> session_colors_ok s'"
  by (auto simp: session_colors_ok_def game_evolved_def slot_evolved_def split: option.splits)

lemma opened_session_colors: "opened role s \<Longrightarrow> session_colors_ok s"
  by (auto simp: session_colors_ok_def opened_def slot_evolved_def)

lemma evolved_keeps_colors:
  assumes "game_evolved s s'"
  shows "(\<forall>x. student s = Some x \<longrightarrow> (\<exists>x'. student s' = Some x' \<and> color x' = color x)) \<and>
         (\<forall>x. mentor s = Some x \<longrightarrow> (\<exists>x'. mentor s' = Some x' \<and> color x' = color x))"
  using assms by (auto simp: game_evolved_def slot_evolved_def)

lemma colors_ok_init: "colors_ok (init conn)"
  by (simp add: colors_ok_def init_def)

lemma colored_slots:
  "game_colors g = creator_colors r \<Longrightarrow> student g \<noteq> None \<and> mentor g \<noteq> None"
  by (auto simp: game_colors_def creator_colors_def split: if_splits)

text \<open>
  C5, as amended. The colors are complementary when the process starts, the stores being
  empty. Let them be complementary in a state: in every game the student and the mentor
  are black and white, one each, and in every session a student is black and a mentor is
  white. After any event whose \<^verbatim>\<open>newgame\<close> role, if it has one, is
  \<^verbatim>\<open>student\<close> or \<^verbatim>\<open>mentor\<close>, the colors are complementary again, and no color that a
  slot had has changed: the games keep their colors in their places, or some games are
  removed, or a game is added whose colors the creator's role decides, black for the
  creator; and a session that was there is there, each slot it had with the color it had.
\<close>

theorem colors_fixed:
  assumes "colors_ok w" and "role_documented ev" and "handle eng w sid ev = Inr (w', out)"
  shows "colors_ok w' \<and>
         (list_all2 (\<lambda>g g'. game_colors g' = game_colors g) (ongoingGames w) (ongoingGames w') \<or>
          subseq (ongoingGames w') (ongoingGames w) \<or>
          (\<exists>st mn role g. ev = NewGame st mn role \<and> ongoingGames w' = ongoingGames w @ [g] \<and>
             game_colors g = creator_colors role)) \<and>
         (\<forall>k s. (k, s) \<in> set (sessions w) \<longrightarrow>
            (\<exists>s'. (k, s') \<in> set (sessions w') \<and>
               (\<forall>x. student s = Some x \<longrightarrow> (\<exists>x'. student s' = Some x' \<and> color x' = color x)) \<and>
               (\<forall>x. mentor s = Some x \<longrightarrow> (\<exists>x'. mentor s' = Some x' \<and> color x' = color x))))"
proof -
  let ?gs = "ongoingGames w" and ?gs' = "ongoingGames w'"
  let ?two = "\<lambda>g :: 'a game. game_colors g = creator_colors ''student'' \<or>
                              game_colors g = creator_colors ''mentor''"
  from assms(1) have gs: "\<forall>g \<in> set ?gs. ?two g"
    and ss: "\<forall>kv \<in> set (sessions w). session_colors_ok (snd kv)"
    by (simp_all add: colors_ok_def)
  note step = handle_games_step [OF assms(3)]
  note sstep = handle_sessions_step [OF assms(3)]
  have frame: "list_all2 (\<lambda>g g'. game_colors g' = game_colors g) ?gs ?gs' \<or> subseq ?gs' ?gs \<or>
          (\<exists>st mn role g. ev = NewGame st mn role \<and> ?gs' = ?gs @ [g] \<and>
             game_colors g = creator_colors role)"
  proof -
    from step have "list_all2 game_evolved ?gs ?gs' \<or> subseq ?gs' ?gs \<or>
        (\<exists>st mn role g. ev = NewGame st mn role \<and> ?gs' = ?gs @ [g] \<and> created role g)"
      by (auto simp: games_step_def)
    then show ?thesis
    proof (elim disjE)
      assume l: "list_all2 game_evolved ?gs ?gs'"
      have "list_all2 (\<lambda>g g'. game_colors g' = game_colors g) ?gs ?gs'"
        unfolding list_all2_conv_all_nth
      proof (intro conjI allI impI)
        from l show "length ?gs = length ?gs'" by (rule list_all2_lengthD)
      next
        fix i assume i: "i < length ?gs"
        with l have e: "game_evolved (?gs ! i) (?gs' ! i)"
          by (simp add: list_all2_conv_all_nth)
        from i gs have "?two (?gs ! i)" by simp
        then have "student (?gs ! i) \<noteq> None \<and> mentor (?gs ! i) \<noteq> None"
          using colored_slots by blast
        with e show "game_colors (?gs' ! i) = game_colors (?gs ! i)"
          using evolved_slots by blast
      qed
      then show ?thesis by simp
    next
      assume "subseq ?gs' ?gs"
      then show ?thesis by simp
    next
      assume "\<exists>st mn role g. ev = NewGame st mn role \<and> ?gs' = ?gs @ [g] \<and> created role g"
      then obtain st mn role g where n: "ev = NewGame st mn role" "?gs' = ?gs @ [g]" "created role g"
        by blast
      with assms(2) have "game_colors g = creator_colors role"
        by (simp add: created_def)
      with n show ?thesis by blast
    qed
  qed
  have games: "\<forall>g' \<in> set ?gs'. ?two g'"
  proof
    fix g' assume g': "g' \<in> set ?gs'"
    from frame show "?two g'"
    proof (elim disjE)
      assume l: "list_all2 (\<lambda>g g'. game_colors g' = game_colors g) ?gs ?gs'"
      from g' obtain i where i: "i < length ?gs'" "?gs' ! i = g'"
        by (auto simp: in_set_conv_nth)
      with l have "i < length ?gs" "game_colors g' = game_colors (?gs ! i)"
        by (auto simp: list_all2_conv_all_nth)
      with gs show ?thesis by (metis nth_mem)
    next
      assume "subseq ?gs' ?gs"
      with g' have "g' \<in> set ?gs" by (auto elim: list_emb_set)
      with gs show ?thesis by simp
    next
      assume "\<exists>st mn role g. ev = NewGame st mn role \<and> ?gs' = ?gs @ [g] \<and>
                game_colors g = creator_colors role"
      then obtain st mn role g where n: "ev = NewGame st mn role" "?gs' = ?gs @ [g]"
          "game_colors g = creator_colors role"
        by blast
      from n(1) assms(2) have "role = ''student'' \<or> role = ''mentor''" by simp
      with n(3) have "?two g" by auto
      with n(2) g' gs show ?thesis by auto
    qed
  qed
  from sessions_step_pres [OF sstep, of session_colors_ok] ss
  have sessions: "\<forall>kv \<in> set (sessions w'). session_colors_ok (snd kv)"
    using evolved_session_colors opened_session_colors by blast
  have kept: "\<forall>k s. (k, s) \<in> set (sessions w) \<longrightarrow>
            (\<exists>s'. (k, s') \<in> set (sessions w') \<and>
               (\<forall>x. student s = Some x \<longrightarrow> (\<exists>x'. student s' = Some x' \<and> color x' = color x)) \<and>
               (\<forall>x. mentor s = Some x \<longrightarrow> (\<exists>x'. mentor s' = Some x' \<and> color x' = color x)))"
  proof (intro allI impI)
    fix k s assume "(k, s) \<in> set (sessions w)"
    from sessions_step_keeps [OF sstep this]
    obtain s' where "(k, s') \<in> set (sessions w')" "game_evolved s s'" by blast
    with evolved_keeps_colors [of s s']
    show "\<exists>s'. (k, s') \<in> set (sessions w') \<and>
               (\<forall>x. student s = Some x \<longrightarrow> (\<exists>x'. student s' = Some x' \<and> color x' = color x)) \<and>
               (\<forall>x. mentor s = Some x \<longrightarrow> (\<exists>x'. mentor s' = Some x' \<and> color x' = color x))"
      by blast
  qed
  from games sessions have "colors_ok w'" by (simp add: colors_ok_def)
  with frame kept show ?thesis by blast
qed

theorem colors_fixed_witness:
  "colors_ok demo_game \<and> role_documented (NewGame ''Alice'' ''Bob'' ''mentor'') \<and>
   handle demo_engine demo_game ''s2'' (NewGame ''Alice'' ''Bob'' ''mentor'') =
     Inr (demo_paired, [Emit (Room ''s2'') ''boardstate'' (BoardStateMsg [] (Str ''white''))]) \<and>
   colors_ok demo_paired \<and>
   game_colors (ongoingGames demo_paired ! 0) = (Some (Str ''black''), Some (Str ''white'')) \<and>
   colors_ok demo_named \<and> role_documented (JoinSession ''abc'' ''Bob'' ''mentor'') \<and>
   (\<exists>w' out. handle demo_engine demo_named ''s2'' (JoinSession ''abc'' ''Bob'' ''mentor'') = Inr (w', out) \<and>
      colors_ok w')"
proof -
  have a: "colors_ok demo_game"
    by (simp add: colors_ok_def game_colors_def creator_colors_def demo_defs)
  have b: "role_documented (NewGame ''Alice'' ''Bob'' ''mentor'')"
    by simp
  from colors_fixed [OF a b run_demo_paired] have c: "colors_ok demo_paired"
    by blast
  then have d: "game_colors (ongoingGames demo_paired ! 0) = (Some (Str ''black''), Some (Str ''white''))"
    by (simp add: game_colors_def demo_defs)
  have e: "colors_ok demo_named"
    by (simp add: colors_ok_def session_colors_ok_def demo_defs)
  have f: "role_documented (JoinSession ''abc'' ''Bob'' ''mentor'')"
    by simp
  obtain w' out where j:
    "handle demo_engine demo_named ''s2'' (JoinSession ''abc'' ''Bob'' ''mentor'') = Inr (w', out)"
    using run_demo_joined by simp
  from colors_fixed [OF e f j] have "colors_ok w'" by blast
  with j have g: "\<exists>w' out. handle demo_engine demo_named ''s2'' (JoinSession ''abc'' ''Bob'' ''mentor'') =
      Inr (w', out) \<and> colors_ok w'"
    by blast
  from a b run_demo_paired c d e f g show ?thesis by blast
qed

text \<open>C5 as stated fails in two states of a run. After \<^verbatim>\<open>createSession\<close> the session has
  one slot and one color, not a pair. After \<^verbatim>\<open>newgame\<close> with a role that is neither
  \<^verbatim>\<open>student\<close> nor \<^verbatim>\<open>mentor\<close>, the game is registered with no color in either
  slot.\<close>

theorem one_color_counterexample:
  "handle demo_engine (init three) ''s1'' (CreateSession ''abc'' ''Alice'' ''student'') =
     Inr (demo_named, [Emit (Socket ''s1'') ''sessionCreated'' (BoardStateMsg [] (Str ''black''))]) \<and>
   student (snd (sessions demo_named ! 0)) = Some (alice ''s1'') \<and>
   mentor (snd (sessions demo_named ! 0)) = None \<and>
   handle demo_engine (init [''s1'']) ''s1'' (NewGame ''Alice'' ''Bob'' ''coach'') =
     Inr (\<lparr>ongoingGames =
             [\<lparr>student = Some \<lparr>username = ''Alice'', id' = [], color = Undefined\<rparr>,
               mentor = Some \<lparr>username = ''Bob'', id' = [], color = Undefined\<rparr>,
               boardState = Board [], pastStates = Past [], others = []\<rparr>],
           sessions = [], connected = [''s1''], rooms = [], builtin_slots = []\<rparr>,
          [Emit Everyone invalid_role_event NoPayload,
           Emit Everyone ''boardstate'' (BoardStateMsg [] Null)])"
  using run_demo_named
  by (simp add: newgame_def newgame_create_def init_def nth_js_def demo_defs)
subsection \<open>\<^verbatim>\<open>newgame\<close>: who hears of it, and joining a game that exists\<close>

lemma game_matches_names:
  "student g \<noteq> None \<Longrightarrow> mentor g \<noteq> None \<Longrightarrow> game_matches st mn g = Inr (names_match st mn g)"
  by (auto simp: game_matches_def names_match_def)

lemma find_ongoing_names:
  "\<forall>g \<in> set gs. student g \<noteq> None \<and> mentor g \<noteq> None \<Longrightarrow>
     find_ongoing st mn gs = Inr (find_idx (names_match st mn) gs)"
  by (induction gs) (auto simp: game_matches_names)

lemma reachable_find_ongoing:
  assumes "reachable eng w"
  shows "find_ongoing st mn (ongoingGames w) = Inr (find_idx (names_match st mn) (ongoingGames w))"
  using reachable_wf [OF assms] by (intro find_ongoing_names) (simp add: games_wf_def)

lemma first_match_exists:
  assumes "\<exists>g \<in> set gs. P g"
  shows "\<exists>i. i < length gs \<and> P (gs ! i) \<and> list_all (\<lambda>g. \<not> P g) (take i gs)"
proof -
  from assms have "find_idx P gs \<noteq> None" by (simp add: find_idx_None)
  then obtain i where "find_idx P gs = Some i" by auto
  then show ?thesis by (auto simp: find_idx_iff)
qed

lemma newgame_existing_eq:
  assumes "student (ongoingGames w ! i) = Some s" "mentor (ongoingGames w ! i) = Some m"
    and "boardState (ongoingGames w ! i) = Board b"
  shows "newgame_existing eng w sid role i =
           Inr (w\<lparr>ongoingGames := (ongoingGames w)
                   [i := (if role = ''student''
                          then (ongoingGames w ! i)\<lparr>student := Some (s\<lparr>id' := sid\<rparr>)\<rparr>
                          else if role = ''mentor''
                          then (ongoingGames w ! i)\<lparr>mentor := Some (m\<lparr>id' := sid\<rparr>)\<rparr>
                          else ongoingGames w ! i)]\<rparr>,
                [Emit (Room sid) ''boardstate''
                   (BoardStateMsg (chess_fen eng b)
                      (if role = ''student'' then color s
                       else if role = ''mentor'' then color m else Undefined))])"
  using assms by (simp add: newgame_existing_def Let_def fen_of_def)

lemma newgame_existing_wf:
  assumes wf: "games_wf w" and i: "i < length (ongoingGames w)"
  shows "\<exists>b c g. boardState (ongoingGames w ! i) = Board b \<and>
           newgame_existing eng w sid role i =
             Inr (w\<lparr>ongoingGames := (ongoingGames w)[i := g]\<rparr>,
                  [Emit (Room sid) ''boardstate'' (BoardStateMsg (chess_fen eng b) c)])"
proof -
  let ?g = "ongoingGames w ! i"
  from wf i have "student ?g \<noteq> None \<and> mentor ?g \<noteq> None \<and> is_board (boardState ?g)"
    by (simp add: games_wf_def)
  then obtain s m b where "student ?g = Some s" "mentor ?g = Some m" "boardState ?g = Board b"
    by (auto simp: is_board_def split: board.splits)
  from this(3) newgame_existing_eq [OF this, of eng sid role] show ?thesis
    by blast
qed

text \<open>C9 as stated fails on its second half. Carol, on \<open>s3\<close>, has created a session whose
  id is \<open>s2\<close>, the id of Bob's connection, and so has joined the room \<open>s2\<close>. When Bob
  joins Alice's game, the event for him goes to \<^verbatim>\<open>io.to("s2")\<close>, and Carol receives it
  too.\<close>

theorem newgame_room_counterexample:
  "reachable demo_engine demo_room \<and>
   names_match ''Alice'' ''Bob'' (ongoingGames demo_room ! 0) \<and>
   handle demo_engine demo_room ''s2'' (NewGame ''Alice'' ''Bob'' ''mentor'') =
     Inr (demo_room\<lparr>ongoingGames := [(ongoingGames demo_room ! 0)\<lparr>mentor := Some (bob ''s2'')\<rparr>]\<rparr>,
          [Emit (Room ''s2'') ''boardstate'' (BoardStateMsg [] (Str ''white''))]) \<and>
   recipients (demo_room\<lparr>ongoingGames := [(ongoingGames demo_room ! 0)\<lparr>mentor := Some (bob ''s2'')\<rparr>]\<rparr>)
     (Emit (Room ''s2'') ''boardstate'' (BoardStateMsg [] (Str ''white''))) = {''s2'', ''s3''}"
proof -
  have "names_match ''Alice'' ''Bob'' (ongoingGames demo_room ! 0)"
    by (simp add: names_match_def demo_defs)
  moreover have "handle demo_engine demo_room ''s2'' (NewGame ''Alice'' ''Bob'' ''mentor'') =
     Inr (demo_room\<lparr>ongoingGames := [(ongoingGames demo_room ! 0)\<lparr>mentor := Some (bob ''s2'')\<rparr>]\<rparr>,
          [Emit (Room ''s2'') ''boardstate'' (BoardStateMsg [] (Str ''white''))])"
    by (simp add: newgame_def newgame_existing_def game_matches_def fen_of_def demo_defs)
  moreover have "recipients (demo_room\<lparr>ongoingGames := [(ongoingGames demo_room ! 0)\<lparr>mentor := Some (bob ''s2'')\<rparr>]\<rparr>)
     (Emit (Room ''s2'') ''boardstate'' (BoardStateMsg [] (Str ''white''))) = {''s2'', ''s3''}"
    by (auto simp: demo_defs)
  ultimately show ?thesis using reachable_demo(7) by blast
qed

text \<open>
  C9, as amended. In a state of a run, when no game of \<^verbatim>\<open>ongoingGames\<close> has the student
  name or the mentor name of the request, \<^verbatim>\<open>newgame\<close> creates a game and emits
  \<^verbatim>\<open>boardstate\<close> with \<^verbatim>\<open>io.emit\<close>: the event, which carries the initial position and
  the creator's color, reaches every live connection of the process, not the requester or
  the participants only. When a game has one of the names, the handler's one emit goes to
  the room of the requester's connection id: it reaches the live connections that are the
  requester's or have joined that room, which they do by creating or joining a session
  whose id is the requester's connection id; it reaches the requester alone when no
  connection has joined that room.
\<close>

theorem newgame_audience:
  assumes "reachable eng w"
  shows "((\<forall>g \<in> set (ongoingGames w). \<not> names_match st mn g) \<longrightarrow>
      (\<exists>w' c. newgame eng w sid st mn role =
                 Inr (w', (if role = ''student'' \<or> role = ''mentor'' then []
                           else [Emit Everyone invalid_role_event NoPayload]) @
                          [Emit Everyone ''boardstate'' (BoardStateMsg (chess_fen eng (chess_new eng)) c)]) \<and>
         c = (if role = ''student'' \<or> role = ''mentor'' then Str ''black'' else Null) \<and>
         (role = ''student'' \<or> role = ''mentor'' \<longrightarrow>
            (\<exists>x. role_slot role (last (ongoingGames w')) = Some x \<and> id' x = sid \<and> color x = c)) \<and>
         recipients w'
           (Emit Everyone ''boardstate'' (BoardStateMsg (chess_fen eng (chess_new eng)) c)) =
           set (connected w)))
   \<and> ((\<exists>g \<in> set (ongoingGames w). names_match st mn g) \<longrightarrow>
        (\<exists>w' fen c. newgame eng w sid st mn role =
                       Inr (w', [Emit (Room sid) ''boardstate'' (BoardStateMsg fen c)]) \<and>
           recipients w' (Emit (Room sid) ''boardstate'' (BoardStateMsg fen c)) = room_members w sid \<and>
           (sid \<in> set (connected w) \<longrightarrow> sid \<in> room_members w sid) \<and>
           (sid \<notin> fst ` set (rooms w) \<longrightarrow> room_members w sid \<subseteq> {sid})))"
proof (intro conjI impI)
  note f = reachable_find_ongoing [OF assms, of st mn]
  {
    assume "\<forall>g \<in> set (ongoingGames w). \<not> names_match st mn g"
    then have "find_idx (names_match st mn) (ongoingGames w) = None"
      by (simp add: find_idx_None)
    with f have run: "newgame eng w sid st mn role = Inr (newgame_create eng w sid st mn role)"
      by (simp add: newgame_def)
    show "\<exists>w' c. newgame eng w sid st mn role =
                 Inr (w', (if role = ''student'' \<or> role = ''mentor'' then []
                           else [Emit Everyone invalid_role_event NoPayload]) @
                          [Emit Everyone ''boardstate'' (BoardStateMsg (chess_fen eng (chess_new eng)) c)]) \<and>
         c = (if role = ''student'' \<or> role = ''mentor'' then Str ''black'' else Null) \<and>
         (role = ''student'' \<or> role = ''mentor'' \<longrightarrow>
            (\<exists>x. role_slot role (last (ongoingGames w')) = Some x \<and> id' x = sid \<and> color x = c)) \<and>
         recipients w'
           (Emit Everyone ''boardstate'' (BoardStateMsg (chess_fen eng (chess_new eng)) c)) =
           set (connected w)"
      unfolding run
      by (auto simp: newgame_create_def Let_def nth_js_def role_slot_def)
  next
    assume "\<exists>g \<in> set (ongoingGames w). names_match st mn g"
    then have "find_idx (names_match st mn) (ongoingGames w) \<noteq> None"
      by (simp add: find_idx_None)
    then obtain i where i: "find_idx (names_match st mn) (ongoingGames w) = Some i" by auto
    from find_idx_Some [OF i] have l: "i < length (ongoingGames w)" by simp
    from i f have run: "newgame eng w sid st mn role = newgame_existing eng w sid role i"
      by (simp add: newgame_def)
    from newgame_existing_wf [OF reachable_wf [OF assms] l, of eng sid role]
    obtain b c g where e: "newgame_existing eng w sid role i =
             Inr (w\<lparr>ongoingGames := (ongoingGames w)[i := g]\<rparr>,
                  [Emit (Room sid) ''boardstate'' (BoardStateMsg (chess_fen eng b) c)])"
      by blast
    have "recipients (w\<lparr>ongoingGames := (ongoingGames w)[i := g]\<rparr>)
            (Emit (Room sid) ''boardstate'' (BoardStateMsg (chess_fen eng b) c)) = room_members w sid"
      by (simp add: room_members_def)
    moreover have "sid \<in> set (connected w) \<longrightarrow> sid \<in> room_members w sid"
      by (simp add: room_members_def)
    moreover have "sid \<notin> fst ` set (rooms w) \<longrightarrow> room_members w sid \<subseteq> {sid}"
      by (force simp: room_members_def)
    ultimately show "\<exists>w' fen c. newgame eng w sid st mn role =
                       Inr (w', [Emit (Room sid) ''boardstate'' (BoardStateMsg fen c)]) \<and>
           recipients w' (Emit (Room sid) ''boardstate'' (BoardStateMsg fen c)) = room_members w sid \<and>
           (sid \<in> set (connected w) \<longrightarrow> sid \<in> room_members w sid) \<and>
           (sid \<notin> fst ` set (rooms w) \<longrightarrow> room_members w sid \<subseteq> {sid})"
      unfolding run e by blast
  }
qed

theorem newgame_audience_witness:
  "reachable demo_engine demo_game \<and>
   length (ongoingGames demo_game) = 1 \<and>
   \<not> names_match ''Carol'' ''Dave'' (ongoingGames demo_game ! 0) \<and>
   (\<exists>w'. newgame demo_engine demo_game ''s3'' ''Carol'' ''Dave'' ''student'' =
       Inr (w', [Emit Everyone ''boardstate'' (BoardStateMsg [] (Str ''black''))]) \<and>
     role_slot ''student'' (last (ongoingGames w')) = Some (carol ''s3'') \<and>
     recipients w' (Emit Everyone ''boardstate'' (BoardStateMsg [] (Str ''black''))) =
       {''s1'', ''s2'', ''s3''}) \<and>
   names_match ''Alice'' ''Bob'' (ongoingGames demo_game ! 0) \<and>
   newgame demo_engine demo_game ''s2'' ''Alice'' ''Bob'' ''mentor'' =
     Inr (demo_paired, [Emit (Room ''s2'') ''boardstate'' (BoardStateMsg [] (Str ''white''))]) \<and>
   ''s2'' \<notin> fst ` set (rooms demo_game) \<and>
   recipients demo_paired (Emit (Room ''s2'') ''boardstate'' (BoardStateMsg [] (Str ''white''))) =
     {''s2''} \<and>
   reachable demo_engine demo_room \<and>
   names_match ''Alice'' ''Bob'' (ongoingGames demo_room ! 0) \<and>
   (\<exists>w'. newgame demo_engine demo_room ''s2'' ''Alice'' ''Bob'' ''mentor'' =
       Inr (w', [Emit (Room ''s2'') ''boardstate'' (BoardStateMsg [] (Str ''white''))]) \<and>
     recipients w' (Emit (Room ''s2'') ''boardstate'' (BoardStateMsg [] (Str ''white''))) =
       {''s2'', ''s3''})"
proof -
  have l: "length (ongoingGames demo_game) = 1"
    and n: "\<not> names_match ''Carol'' ''Dave'' (ongoingGames demo_game ! 0)"
    and m: "names_match ''Alice'' ''Bob'' (ongoingGames demo_game ! 0)"
    and m2: "names_match ''Alice'' ''Bob'' (ongoingGames demo_room ! 0)"
    and r: "''s2'' \<notin> fst ` set (rooms demo_game)"
    by (simp_all add: names_match_def demo_defs)
  from l n have h1: "\<forall>g \<in> set (ongoingGames demo_game). \<not> names_match ''Carol'' ''Dave'' g"
    by (simp add: demo_defs)
  from m have h2: "\<exists>g \<in> set (ongoingGames demo_game). names_match ''Alice'' ''Bob'' g"
    by (simp add: demo_defs)
  from m2 have h3: "\<exists>g \<in> set (ongoingGames demo_room). names_match ''Alice'' ''Bob'' g"
    by (simp add: demo_defs)
  have r2: "newgame demo_engine demo_game ''s2'' ''Alice'' ''Bob'' ''mentor'' =
     Inr (demo_paired, [Emit (Room ''s2'') ''boardstate'' (BoardStateMsg [] (Str ''white''))])"
    using run_demo_paired by simp
  from newgame_audience [OF reachable_demo(1), of "''Carol''" "''Dave''" "''s3''" "''student''",
      THEN conjunct1, THEN mp, OF h1]
  obtain w' x where c:
      "newgame demo_engine demo_game ''s3'' ''Carol'' ''Dave'' ''student'' =
         Inr (w', [Emit Everyone ''boardstate''
                     (BoardStateMsg (chess_fen demo_engine (chess_new demo_engine)) (Str ''black''))])"
      "role_slot ''student'' (last (ongoingGames w')) = Some x" "id' x = ''s3''"
      "recipients w' (Emit Everyone ''boardstate''
          (BoardStateMsg (chess_fen demo_engine (chess_new demo_engine)) (Str ''black''))) =
         set (connected demo_game)"
    by auto
  have fen: "chess_fen demo_engine (chess_new demo_engine) = []"
    by (simp add: demo_defs)
  from c(1) have "w' = fst (newgame_create demo_engine demo_game ''s3'' ''Carol'' ''Dave'' ''student'')"
    by (simp add: newgame_def game_matches_def demo_defs)
  with c(2) have x: "x = carol ''s3''"
    by (simp add: newgame_create_def role_slot_def nth_js_def Let_def demo_defs)
  from c x have a: "\<exists>w'. newgame demo_engine demo_game ''s3'' ''Carol'' ''Dave'' ''student'' =
       Inr (w', [Emit Everyone ''boardstate'' (BoardStateMsg [] (Str ''black''))]) \<and>
     role_slot ''student'' (last (ongoingGames w')) = Some (carol ''s3'') \<and>
     recipients w' (Emit Everyone ''boardstate'' (BoardStateMsg [] (Str ''black''))) =
       {''s1'', ''s2'', ''s3''}"
    unfolding fen by (auto simp: demo_defs)
  from newgame_audience [OF reachable_demo(1), of "''Alice''" "''Bob''" "''s2''" "''mentor''",
      THEN conjunct2, THEN mp, OF h2] r2 r
  have "recipients demo_paired (Emit (Room ''s2'') ''boardstate'' (BoardStateMsg [] (Str ''white''))) =
          room_members demo_game ''s2''"
       "''s2'' \<in> room_members demo_game ''s2''" "room_members demo_game ''s2'' \<subseteq> {''s2''}"
    by (auto simp: demo_defs)
  then have b: "recipients demo_paired
      (Emit (Room ''s2'') ''boardstate'' (BoardStateMsg [] (Str ''white''))) = {''s2''}"
    by blast
  from newgame_audience [OF reachable_demo(7), of "''Alice''" "''Bob''" "''s2''" "''mentor''",
      THEN conjunct2, THEN mp, OF h3]
  obtain w'' fen' c' where d:
      "newgame demo_engine demo_room ''s2'' ''Alice'' ''Bob'' ''mentor'' =
         Inr (w'', [Emit (Room ''s2'') ''boardstate'' (BoardStateMsg fen' c')])"
      "recipients w'' (Emit (Room ''s2'') ''boardstate'' (BoardStateMsg fen' c')) =
         room_members demo_room ''s2''"
    by blast
  from d(1) have "fen' = [] \<and> c' = Str ''white''"
    by (simp add: newgame_def newgame_existing_def game_matches_def fen_of_def demo_defs)
  moreover have "room_members demo_room ''s2'' = {''s2'', ''s3''}"
    by (auto simp: room_members_def demo_defs)
  ultimately have e: "\<exists>w'. newgame demo_engine demo_room ''s2'' ''Alice'' ''Bob'' ''mentor'' =
       Inr (w', [Emit (Room ''s2'') ''boardstate'' (BoardStateMsg [] (Str ''white''))]) \<and>
     recipients w' (Emit (Room ''s2'') ''boardstate'' (BoardStateMsg [] (Str ''white''))) =
       {''s2'', ''s3''}"
    using d by auto
  show ?thesis
    by (insert reachable_demo(1) l n a m r2 r b reachable_demo(7) m2 e, intro conjI) assumption+
qed




end
